theory Spec2Isabelle
  imports Complex_Main
begin

section \<open>Values shared by the worker and the viewer\<close>

text \<open>
  The program is \<^verbatim>\<open>src/main.py\<close>: a background worker (\<^verbatim>\<open>ThumbnailWorker\<close>) that
  produces cached thumbnails of PDF files, and a viewer widget (\<^verbatim>\<open>PDFViewer\<close>).
  Every \<^verbatim>\<open>raise\<close> of the source is a value \<open>Inl e\<close> of a sum type; every
  \<^verbatim>\<open>try\<close>/\<^verbatim>\<open>except Exception\<close> is a case distinction on such a value. A call that
  never returns has the value \<open>None\<close>.
\<close>

datatype error =
    OSError string
  | FileDataError string
  | IndexError string
  | UnidentifiedImageError string
  | UnicodeEncodeError string
  | ZeroDivisionError string

fun message :: "error \<Rightarrow> string" where
  "message (OSError m) = m"
| "message (FileDataError m) = m"
| "message (IndexError m) = m"
| "message (UnidentifiedImageError m) = m"
| "message (UnicodeEncodeError m) = m"
| "message (ZeroDivisionError m) = m"

subsection \<open>Python strings\<close>

text \<open>
  A \<^verbatim>\<open>str\<close> is a sequence of code points, the natural numbers below \<open>0x110000\<close>.
  The code points from \<open>0xD800\<close> to \<open>0xDFFF\<close> are the surrogates: \<^verbatim>\<open>os.listdir\<close> puts
  one into a file name for each byte of the name that is not UTF-8. \<open>lit\<close> is a string
  literal of the source. The text of an exception and of a dialog is written as an
  Isabelle string.
\<close>

type_synonym str = "nat list"

definition lit :: "string \<Rightarrow> str" where
  "lit s = map of_char s"

text \<open>
  \<^verbatim>\<open>s.encode()\<close>: the UTF-8 bytes of a string, which exist when the string holds no
  surrogate.
\<close>

definition is_surrogate :: "nat \<Rightarrow> bool" where
  "is_surrogate c = (0xD800 \<le> c \<and> c \<le> 0xDFFF)"

definition utf8_char :: "nat \<Rightarrow> nat list" where
  "utf8_char c =
     (if c < 0x80 then [c]
      else if c < 0x800 then [0xC0 + c div 64, 0x80 + c mod 64]
      else if c < 0x10000 then [0xE0 + c div 4096, 0x80 + c div 64 mod 64, 0x80 + c mod 64]
      else [0xF0 + c div 262144, 0x80 + c div 4096 mod 64, 0x80 + c div 64 mod 64,
            0x80 + c mod 64])"

definition encode :: "str \<Rightarrow> error + nat list" where
  "encode s =
     (if list_ex is_surrogate s then Inl (UnicodeEncodeError ''surrogates not allowed'')
      else Inr (concat (map utf8_char s)))"

text \<open>\<^verbatim>\<open>f"{page_num}"\<close> for a Python \<^verbatim>\<open>int\<close>: its decimal digits.\<close>

definition digit_char :: "nat \<Rightarrow> nat" where
  "digit_char d = of_char CHR ''0'' + d"

function str_nat :: "nat \<Rightarrow> str" where
  "str_nat n = (if n < 10 then [digit_char n] else str_nat (n div 10) @ [digit_char (n mod 10)])"
  by pat_completeness auto
termination
  by (relation "measure id") auto

definition str_int :: "int \<Rightarrow> str" where
  "str_int i = (if i < 0 then of_char CHR ''-'' # str_nat (nat (- i)) else str_nat (nat i))"

subsection \<open>Images and documents\<close>

text \<open>
  A PIL image: its pixel dimensions, and what \<^verbatim>\<open>load()\<close> gives, an opaque description
  of the pixels or the error of decoding them. \<^verbatim>\<open>Image.open\<close> reads the header of a
  file and leaves the pixel data to the first use of the image, so that the image of a
  file cut short after its header has dimensions and pixels that do not load.
  A page of a document is opaque; a document is the sequence of its pages, and
  \<^verbatim>\<open>len(doc)\<close> is the length of that sequence.
\<close>

record image =
  img_size :: "nat \<times> nat"
  img_load :: "error + string"

type_synonym page = string

datatype document = Document (pages: "page list")

text \<open>
  \<^verbatim>\<open>doc[i]\<close> is PyMuPDF's \<^verbatim>\<open>Document.__getitem__\<close>, which the program calls and does
  not define. It raises \<^verbatim>\<open>IndexError\<close> for an index that is not below the page count
  and hands every other index, also a negative one, to \<^verbatim>\<open>load_page\<close>, whose loop
  \<^verbatim>\<open>while page_id < 0: page_id += np\<close> adds the page count until the index is not
  negative. For a document of no page the loop adds zero and does not end.
\<close>

partial_function (option) load_page_index :: "int \<Rightarrow> int \<Rightarrow> int option" where
  "load_page_index np page_id =
     (if page_id < 0 then load_page_index np (page_id + np) else Some page_id)"

definition getitem :: "document \<Rightarrow> int \<Rightarrow> (error + page) option" where
  "getitem doc i =
     (let np = int (length (pages doc))
      in if np \<le> i then Some (Inl (IndexError ''page not in document''))
         else map_option (\<lambda>j. Inr (pages doc ! nat j)) (load_page_index np i))"

subsection \<open>The operating system and the libraries\<close>

text \<open>
  What the program calls but does not define is a field of the environment: the file
  system (\<^verbatim>\<open>os.stat\<close>, \<^verbatim>\<open>os.path.join\<close>, \<^verbatim>\<open>pathlib\<close>), Python's character classes and
  float formatting, \<^verbatim>\<open>hashlib\<close>, PyMuPDF (\<^verbatim>\<open>fitz\<close>) and PIL. A modification time is a
  finite float, hence a rational number.

  \<^item> \<open>os_stat p\<close> is \<^verbatim>\<open>os.stat(p).st_mtime\<close>, or the error raised;
  \<^item> \<open>float_str m\<close> is \<^verbatim>\<open>f"{m}"\<close> for a float \<open>m\<close>;
  \<^item> \<open>md5_hexdigest b\<close> is \<^verbatim>\<open>hashlib.md5(b).hexdigest()\<close> for bytes \<open>b\<close>;
  \<^item> \<open>path_stem p\<close> and \<open>path_name p\<close> are \<^verbatim>\<open>Path(p).stem\<close> and \<^verbatim>\<open>Path(p).name\<close>;
  \<^item> \<open>fitz_open p\<close> is \<^verbatim>\<open>fitz.open(p)\<close>;
  \<^item> \<open>rasterize pg\<close> is lines 70 to 73: \<^verbatim>\<open>get_pixmap\<close> at scale 2, \<^verbatim>\<open>tobytes("ppm")\<close>
    and \<^verbatim>\<open>Image.open\<close> of these bytes;
  \<^item> \<open>thumbnail sz img\<close> is \<^verbatim>\<open>img.thumbnail(sz, LANCZOS)\<close>;
  \<^item> \<open>render_page pg z\<close> is lines 205 to 210: the pixmap of a page at zoom \<open>z\<close>.
\<close>

record env =
  os_stat :: "str \<Rightarrow> error + rat"
  os_path_join :: "str \<Rightarrow> str \<Rightarrow> str"
  path_stem :: "str \<Rightarrow> str"
  path_name :: "str \<Rightarrow> str"
  isalnum :: "nat \<Rightarrow> bool"
  isspace :: "nat \<Rightarrow> bool"
  float_str :: "rat \<Rightarrow> str"
  md5_hexdigest :: "nat list \<Rightarrow> str"
  fitz_open :: "str \<Rightarrow> error + document"
  rasterize :: "page \<Rightarrow> error + image"
  thumbnail :: "nat \<times> nat \<Rightarrow> image \<Rightarrow> error + image"
  render_page :: "page \<Rightarrow> rat \<Rightarrow> error + image"

text \<open>
  The cache directory. A file name is absent, or holds bytes that \<^verbatim>\<open>Image.open\<close>
  accepts (\<open>Png\<close>, with the image it returns, whose pixels may not load), or holds bytes
  that \<^verbatim>\<open>Image.open\<close> rejects (\<open>Corrupt\<close>). \<open>refused f\<close> is the error that the file
  system raises when asked about the name \<open>f\<close>, as for a name that is too long.
  \<open>writable\<close> tells whether \<^verbatim>\<open>img.save\<close> succeeds.
\<close>

datatype stored = Png image | Corrupt

record disk =
  files :: "str \<rightharpoonup> stored"
  refused :: "str \<Rightarrow> error option"
  writable :: bool

text \<open>
  \<^verbatim>\<open>cache_file.exists()\<close> of \<^verbatim>\<open>pathlib\<close>, which passes on the errors of the file system
  other than that of a missing file.
\<close>

definition path_exists :: "disk \<Rightarrow> str \<Rightarrow> error + bool" where
  "path_exists d f = (case refused d f of Some e \<Rightarrow> Inl e | None \<Rightarrow> Inr (files d f \<noteq> None))"

text \<open>\<^verbatim>\<open>Image.open(cache_file)\<close>.\<close>

definition image_open :: "disk \<Rightarrow> str \<Rightarrow> error + image" where
  "image_open d f =
     (case files d f of
        None \<Rightarrow> Inl (OSError ''No such file or directory'')
      | Some Corrupt \<Rightarrow> Inl (UnidentifiedImageError ''cannot identify image file'')
      | Some (Png img) \<Rightarrow> Inr img)"

section \<open>ThumbnailWorker\<close>

record worker =
  pdf_files :: "str list"
  folder_path :: str
  thumbnail_size :: "nat \<times> nat"
  page_num :: int
  is_running :: bool

text \<open>\<^verbatim>\<open>__init__\<close> (lines 31 to 38); the cache directory is the \<open>disk\<close>.\<close>

definition init_worker :: "str list \<Rightarrow> str \<Rightarrow> nat \<times> nat \<Rightarrow> int \<Rightarrow> worker" where
  "init_worker fs folder sz pg =
     \<lparr>pdf_files = fs, folder_path = folder, thumbnail_size = sz, page_num = pg,
      is_running = True\<rparr>"

text \<open>\<^verbatim>\<open>stop\<close> (lines 110 to 112).\<close>

definition stop :: "worker \<Rightarrow> worker" where
  "stop w = w\<lparr>is_running := False\<rparr>"

subsection \<open>get_cache_filename (lines 87 to 104)\<close>

text \<open>\<^verbatim>\<open>str.rstrip()\<close>: drop the trailing whitespace.\<close>

definition rstrip :: "env \<Rightarrow> str \<Rightarrow> str" where
  "rstrip E s = rev (dropWhile (isspace E) (rev s))"

text \<open>Lines 95 and 102: keep the alphanumeric characters, the hyphen and the underscore.\<close>

definition safe_filename :: "env \<Rightarrow> str \<Rightarrow> str" where
  "safe_filename E s =
     rstrip E (filter (\<lambda>c. isalnum E c \<or> c = of_char CHR ''-'' \<or> c = of_char CHR ''_'') s)"

text \<open>Line 91.\<close>

definition cache_key :: "env \<Rightarrow> str \<Rightarrow> rat \<Rightarrow> int \<Rightarrow> str" where
  "cache_key E pdf_path mtime pg =
     pdf_path @ lit ''_'' @ float_str E mtime @ lit ''_'' @ str_int pg"

text \<open>Line 92: the first 12 digits of the digest of the encoded key, or the error of encoding.\<close>

definition hash_name :: "env \<Rightarrow> str \<Rightarrow> error + str" where
  "hash_name E key =
     (case encode key of
        Inl e \<Rightarrow> Inl e
      | Inr b \<Rightarrow> Inr (take 12 (md5_hexdigest E b)))"

text \<open>The number of bits that a string of hexadecimal digits carries.\<close>

definition hex_bits :: "str \<Rightarrow> nat" where
  "hex_bits h = 4 * length h"

text \<open>Lines 100 to 104, the body of the \<^verbatim>\<open>except Exception\<close> of line 99.\<close>

definition fallback_filename :: "env \<Rightarrow> str \<Rightarrow> int \<Rightarrow> str" where
  "fallback_filename E pdf_path pg =
     safe_filename E (path_name E pdf_path) @ lit ''_p'' @ str_int pg @ lit ''.png''"

text \<open>
  The result is the name of the file inside the cache directory (the source returns
  \<^verbatim>\<open>self.cache_dir / cache_filename\<close>). The \<^verbatim>\<open>try\<close> of line 89 holds \<^verbatim>\<open>os.stat\<close> and
  \<^verbatim>\<open>cache_key.encode()\<close>; an error of either leads to line 100.
\<close>

definition get_cache_filename :: "env \<Rightarrow> str \<Rightarrow> int \<Rightarrow> str" where
  "get_cache_filename E pdf_path pg =
     (case os_stat E pdf_path of
        Inl e \<Rightarrow> fallback_filename E pdf_path pg
      | Inr mtime \<Rightarrow>
         (case hash_name E (cache_key E pdf_path mtime pg) of
            Inl e \<Rightarrow> fallback_filename E pdf_path pg
          | Inr h \<Rightarrow>
              safe_filename E (path_stem E pdf_path) @ lit ''_'' @ h @ lit ''_p'' @ str_int pg
                @ lit ''.png''))"

subsection \<open>generate_thumbnail (lines 52 to 85)\<close>

text \<open>\<^verbatim>\<open>create_placeholder_thumbnail\<close> (lines 106 to 108).\<close>

definition create_placeholder_thumbnail :: "worker \<Rightarrow> image" where
  "create_placeholder_thumbnail w = \<lparr>img_size = thumbnail_size w, img_load = Inr ''lightgray''\<rparr>"

text \<open>
  Lines 56 to 61. The test \<^verbatim>\<open>cache_file.exists()\<close> is outside every \<^verbatim>\<open>try\<close>, so its
  error is raised to the caller. For an existing file the result is the image that
  \<^verbatim>\<open>Image.open\<close> returns, and nothing when \<^verbatim>\<open>Image.open\<close> raises
  (\<^verbatim>\<open>except Exception: pass\<close>).
\<close>

definition cached_thumbnail :: "disk \<Rightarrow> str \<Rightarrow> error + image option" where
  "cached_thumbnail d cache_file =
     (case path_exists d cache_file of
        Inl e \<Rightarrow> Inl e
      | Inr present \<Rightarrow>
          if present
          then (case image_open d cache_file of Inl e \<Rightarrow> Inr None | Inr img \<Rightarrow> Inr (Some img))
          else Inr None)"

text \<open>Lines 66 and 67: the page index used for a document of \<open>n\<close> pages.\<close>

definition clamp_page_num :: "int \<Rightarrow> int \<Rightarrow> int" where
  "clamp_page_num n pg = (if pg \<ge> n then min (n - 1) 0 else pg)"

text \<open>\<^verbatim>\<open>img.save(cache_file, "PNG", optimize=True)\<close> (line 77).\<close>

definition save :: "disk \<Rightarrow> str \<Rightarrow> image \<Rightarrow> error + disk" where
  "save d cache_file img =
     (if writable d then Inr (d\<lparr>files := (files d)(cache_file \<mapsto> Png img)\<rparr>)
      else Inl (OSError ''cannot write cache file''))"

text \<open>
  The body of the \<^verbatim>\<open>try\<close> of line 64, lines 65 to 78: the image and the cache directory
  afterwards, or the error raised, or \<open>None\<close> when line 69 does not return.
\<close>

definition render_thumbnail ::
  "env \<Rightarrow> worker \<Rightarrow> disk \<Rightarrow> str \<Rightarrow> str \<Rightarrow> int \<Rightarrow> (error + image \<times> disk) option" where
  "render_thumbnail E w d cache_file pdf_path pg =
     (case fitz_open E pdf_path of
        Inl e \<Rightarrow> Some (Inl e)
      | Inr doc \<Rightarrow>
         (case getitem doc (clamp_page_num (int (length (pages doc))) pg) of
            None \<Rightarrow> None
          | Some (Inl e) \<Rightarrow> Some (Inl e)
          | Some (Inr page) \<Rightarrow>
             (case rasterize E page of
                Inl e \<Rightarrow> Some (Inl e)
              | Inr img0 \<Rightarrow>
                 (case thumbnail E (thumbnail_size w) img0 of
                    Inl e \<Rightarrow> Some (Inl e)
                  | Inr img \<Rightarrow>
                     (case save d cache_file img of
                        Inl e \<Rightarrow> Some (Inl e)
                      | Inr d' \<Rightarrow> Some (Inr (img, d')))))))"

text \<open>
  The whole method: the image returned and the cache directory afterwards, or the error
  raised to the caller, or \<open>None\<close> when the method does not return. The
  \<^verbatim>\<open>except Exception\<close> of line 80 turns every error of the body into the placeholder.
\<close>

definition generate_thumbnail ::
  "env \<Rightarrow> worker \<Rightarrow> disk \<Rightarrow> str \<Rightarrow> int \<Rightarrow> (error + image \<times> disk) option" where
  "generate_thumbnail E w d pdf_path pg =
     (let cache_file = get_cache_filename E pdf_path pg in
      case cached_thumbnail d cache_file of
        Inl e \<Rightarrow> Some (Inl e)
      | Inr (Some img) \<Rightarrow> Some (Inr (img, d))
      | Inr None \<Rightarrow>
         (case render_thumbnail E w d cache_file pdf_path pg of
            None \<Rightarrow> None
          | Some (Inl e) \<Rightarrow> Some (Inr (create_placeholder_thumbnail w, d))
          | Some (Inr (img, d')) \<Rightarrow> Some (Inr (img, d'))))"

subsection \<open>Python floats\<close>

text \<open>
  A finite float is a rational number. \<open>fl x\<close> is the binary64 float nearest to \<open>x\<close>,
  ties to the even significand: \<open>expo x\<close> is the binary exponent of a positive \<open>x\<close>
  (\<open>2 ^ expo x \<le> x < 2 ^ (expo x + 1)\<close>), a significand has 53 bits, and the exponent is
  unbounded, which agrees with binary64 for magnitudes between \<open>2 ^ -1022\<close> and
  \<open>2 ^ 1024\<close>. Python's \<^verbatim>\<open>a / b\<close> on integers, and \<^verbatim>\<open>*\<close> and \<^verbatim>\<open>/\<close> on floats, return the
  exact result rounded by \<open>fl\<close>; \<^verbatim>\<open>int(x)\<close> truncates towards zero.
\<close>

definition pow2 :: "int \<Rightarrow> rat" where
  "pow2 e = (if 0 \<le> e then 2 ^ nat e else 1 / 2 ^ nat (- e))"

function expo :: "rat \<Rightarrow> int" where
  "expo x =
     (if x \<le> 0 then 0
      else if 2 \<le> x then expo (x / 2) + 1
      else if x < 1 then expo (x * 2) - 1
      else 0)"
  by pat_completeness auto
termination
proof (relation "measure (\<lambda>x. nat \<lfloor>x\<rfloor> + 2 * nat \<lceil>1 / x\<rceil>)")
  show "wf (measure (\<lambda>x::rat. nat \<lfloor>x\<rfloor> + 2 * nat \<lceil>1 / x\<rceil>))" by simp
next
  fix x :: rat
  assume a: "\<not> x \<le> 0" "2 \<le> x"
  have 1: "\<lfloor>x / 2\<rfloor> < \<lfloor>x\<rfloor>" using a by linarith
  have "0 < 1 / x" "1 / x \<le> 1" "0 < 1 / (x / 2)" "1 / (x / 2) \<le> 1" using a by (auto simp: field_simps)
  then have 2: "\<lceil>1 / x\<rceil> = 1" "\<lceil>1 / (x / 2)\<rceil> = 1" by (simp_all add: ceiling_eq_iff)
  have "0 \<le> \<lfloor>x / 2\<rfloor>" "2 \<le> \<lfloor>x\<rfloor>" using a by simp_all
  with 1 2 show "(x / 2, x) \<in> measure (\<lambda>x. nat \<lfloor>x\<rfloor> + 2 * nat \<lceil>1 / x\<rceil>)"
    by simp
next
  fix x :: rat
  assume a: "\<not> x \<le> 0" "\<not> 2 \<le> x" "x < 1"
  have fx: "\<lfloor>x\<rfloor> = 0" using a by (simp add: floor_eq_iff)
  have f2: "\<lfloor>x * 2\<rfloor> \<le> 1" using a by (simp add: floor_le_iff)
  have f2': "0 \<le> \<lfloor>x * 2\<rfloor>" using a by simp
  let ?y = "1 / x"
  have y: "1 < ?y" using a by (simp add: field_simps)
  have yy: "1 / (x * 2) = ?y / 2" by simp
  have c1: "2 \<le> \<lceil>?y\<rceil>" using y by linarith
  have "?y / 2 \<le> of_int \<lceil>?y\<rceil> / 2" by (simp add: divide_right_mono)
  also have "\<dots> \<le> of_int (\<lceil>?y\<rceil> - 1)" using c1 by simp
  finally have c2: "\<lceil>?y / 2\<rceil> \<le> \<lceil>?y\<rceil> - 1" by (rule ceiling_le)
  have "0 < ?y / 2" using a by simp
  then have c3: "0 < \<lceil>?y / 2\<rceil>" by (simp only: zero_less_ceiling)
  have "nat \<lfloor>x * 2\<rfloor> + 2 * nat \<lceil>?y / 2\<rceil> < nat \<lfloor>x\<rfloor> + 2 * nat \<lceil>?y\<rceil>"
    using fx f2 f2' c1 c2 c3 by linarith
  then show "(x * 2, x) \<in> measure (\<lambda>x. nat \<lfloor>x\<rfloor> + 2 * nat \<lceil>1 / x\<rceil>)"
    by (simp only: in_measure yy)
qed

definition rne :: "rat \<Rightarrow> int" where
  "rne q =
     (let f = \<lfloor>q\<rfloor>; r = q - of_int f
      in if r < 1 / 2 then f else if 1 / 2 < r then f + 1 else if even f then f else f + 1)"

definition fl :: "rat \<Rightarrow> rat" where
  "fl x = (if x = 0 then 0 else let u = pow2 (expo \<bar>x\<bar> - 52) in of_int (rne (x / u)) * u)"

definition py_int :: "rat \<Rightarrow> int" where
  "py_int x = (if 0 \<le> x then \<lfloor>x\<rfloor> else \<lceil>x\<rceil>)"

subsection \<open>run (lines 40 to 50)\<close>

text \<open>Line 50: \<^verbatim>\<open>int((i + 1) / total * 100)\<close>, which raises when \<^verbatim>\<open>total\<close> is zero.\<close>

definition progress_value :: "nat \<Rightarrow> nat \<Rightarrow> error + int" where
  "progress_value i tot =
     (if tot = 0 then Inl (ZeroDivisionError ''division by zero'')
      else Inr (py_int (fl (fl (of_nat (i + 1) / of_nat tot) * 100))))"

datatype event = ThumbnailReady str image | ProgressUpdated int

text \<open>
  The worker runs in its own thread while the interface thread may call \<^verbatim>\<open>stop\<close>.
  A run performs four actions for each file: the test of \<^verbatim>\<open>is_running\<close> (line 44), the
  generation of the thumbnail (lines 47 and 48) and the two \<^verbatim>\<open>emit\<close>s (lines 49 and 50).
  \<open>clock\<close> counts the actions performed. The schedule \<open>Some t\<close> says that \<^verbatim>\<open>stop\<close> is
  called when the worker has performed exactly \<open>t\<close> actions, \<open>None\<close> that it is never
  called. \<open>raised\<close> is the exception that ended the run, if any; \<open>hangs\<close> tells that the
  run is inside a call that does not return.
\<close>

record run_state =
  self :: worker
  cache :: disk
  events :: "event list"
  clock :: nat
  raised :: "error option"
  hangs :: bool

definition deliver :: "nat option \<Rightarrow> run_state \<Rightarrow> run_state" where
  "deliver sched st = (if sched = Some (clock st) then st\<lparr>self := stop (self st)\<rparr> else st)"

definition tick :: "nat option \<Rightarrow> run_state \<Rightarrow> run_state" where
  "tick sched st = deliver sched (st\<lparr>clock := clock st + 1\<rparr>)"

text \<open>The number of files whose four actions are among the first \<open>t\<close> actions.\<close>

definition files_processed :: "nat \<Rightarrow> nat" where
  "files_processed t = t div 4"

fun run_loop :: "env \<Rightarrow> nat option \<Rightarrow> nat \<Rightarrow> (nat \<times> str) list \<Rightarrow> run_state \<Rightarrow> run_state" where
  "run_loop E sched tot [] st = st"
| "run_loop E sched tot ((i, pdf_file) # rest) st =
     (if \<not> is_running (self st) then st
      else
        let st1 = tick sched st;
            pdf_path = os_path_join E (folder_path (self st1)) pdf_file
        in case generate_thumbnail E (self st1) (cache st1) pdf_path (page_num (self st1)) of
             None \<Rightarrow> st1\<lparr>hangs := True\<rparr>
           | Some (Inl e) \<Rightarrow> st1\<lparr>raised := Some e\<rparr>
           | Some (Inr (thumb, d)) \<Rightarrow>
               let st2 = tick sched (st1\<lparr>cache := d\<rparr>);
                   st3 = tick sched (st2\<lparr>events := events st2 @ [ThumbnailReady pdf_path thumb]\<rparr>)
               in case progress_value i tot of
                    Inl e \<Rightarrow> st3\<lparr>raised := Some e\<rparr>
                  | Inr v \<Rightarrow>
                      run_loop E sched tot rest
                        (tick sched (st3\<lparr>events := events st3 @ [ProgressUpdated v]\<rparr>)))"

definition run :: "env \<Rightarrow> nat option \<Rightarrow> worker \<Rightarrow> disk \<Rightarrow> run_state" where
  "run E sched w d =
     run_loop E sched (length (pdf_files w)) (enumerate 0 (pdf_files w))
       (deliver sched
          \<lparr>self = w, cache = d, events = [], clock = 0, raised = None, hangs = False\<rparr>)"

text \<open>
  Three notions used to describe a run. \<open>running sched c\<close> is the value of the flag
  once \<open>c\<close> actions are performed; \<open>passes sched c n\<close> is the number of flag tests that
  succeed when \<open>n\<close> files remain at that moment and every generation returns an image;
  \<open>batch\<close> is the sequence of events of the loop body repeated over the files with no
  flag and no clock, up to the first generation that raises or does not return.
\<close>

definition running :: "nat option \<Rightarrow> nat \<Rightarrow> bool" where
  "running sched c = (case sched of None \<Rightarrow> True | Some t \<Rightarrow> c < t)"

definition passes :: "nat option \<Rightarrow> nat \<Rightarrow> nat \<Rightarrow> nat" where
  "passes sched c n = (case sched of None \<Rightarrow> n | Some t \<Rightarrow> min n ((t - c + 3) div 4))"

fun batch :: "env \<Rightarrow> worker \<Rightarrow> nat \<Rightarrow> (nat \<times> str) list \<Rightarrow> disk \<Rightarrow> event list" where
  "batch E w tot [] d = []"
| "batch E w tot ((i, pdf_file) # rest) d =
     (let pdf_path = os_path_join E (folder_path w) pdf_file
      in case generate_thumbnail E w d pdf_path (page_num w) of
           None \<Rightarrow> []
         | Some (Inl e) \<Rightarrow> []
         | Some (Inr (thumb, d')) \<Rightarrow>
             (case progress_value i tot of
                Inl e \<Rightarrow> [ThumbnailReady pdf_path thumb]
              | Inr v \<Rightarrow>
                  ThumbnailReady pdf_path thumb # ProgressUpdated v # batch E w tot rest d'))"

text \<open>Line 50 for a total that is not zero.\<close>

definition percent :: "nat \<Rightarrow> nat \<Rightarrow> int" where
  "percent i tot = py_int (fl (fl (of_nat (i + 1) / of_nat tot) * 100))"

text \<open>What a listener of the two signals sees.\<close>

fun ready_paths :: "event list \<Rightarrow> str list" where
  "ready_paths [] = []"
| "ready_paths (ThumbnailReady p img # es) = p # ready_paths es"
| "ready_paths (ProgressUpdated v # es) = ready_paths es"

fun progress_values :: "event list \<Rightarrow> int list" where
  "progress_values [] = []"
| "progress_values (ThumbnailReady p img # es) = progress_values es"
| "progress_values (ProgressUpdated v # es) = v # progress_values es"

datatype signal = ReadySignal str | ProgressSignal int

fun signal_of :: "event \<Rightarrow> signal" where
  "signal_of (ThumbnailReady p img) = ReadySignal p"
| "signal_of (ProgressUpdated v) = ProgressSignal v"

section \<open>PDFViewer\<close>

text \<open>
  The fields of \<^verbatim>\<open>__init__\<close> (lines 116 to 123) and the three widgets the methods
  write: the pixmap of \<^verbatim>\<open>image_label\<close> and the texts of \<^verbatim>\<open>page_label\<close> and
  \<^verbatim>\<open>page_entry\<close>.
\<close>

record viewer =
  current_pdf_doc :: "document option"
  current_page :: int
  total_pages :: int
  viewer_zoom :: rat
  selected_pdf :: "str option"
  image_label :: "image option"
  page_label :: str
  page_entry :: str

definition init_viewer :: viewer where
  "init_viewer =
     \<lparr>current_pdf_doc = None, current_page = 0, total_pages = 0, viewer_zoom = 1,
      selected_pdf = None, image_label = None, page_label = lit ''Page: - / -'',
      page_entry = []\<rparr>"

datatype dialog = Critical string string

text \<open>\<^verbatim>\<open>update_page_info\<close> (lines 219 to 226).\<close>

definition update_page_info :: "viewer \<Rightarrow> viewer" where
  "update_page_info v =
     (if total_pages v > 0
      then v\<lparr>page_label := lit ''Page: '' @ str_int (current_page v + 1) @ lit '' / ''
                 @ str_int (total_pages v),
             page_entry := str_int (current_page v + 1)\<rparr>
      else v\<lparr>page_label := lit ''Page: - / -'', page_entry := []\<rparr>)"

text \<open>
  \<^verbatim>\<open>display_current_page\<close> (lines 197 to 217). A document object is false when it has
  no page (\<^verbatim>\<open>__len__\<close>); an error of the rendering is printed and dropped. The result
  is the viewer afterwards, or \<open>None\<close> when line 203 does not return.
\<close>

definition display_current_page :: "env \<Rightarrow> viewer \<Rightarrow> viewer option" where
  "display_current_page E v =
     (case current_pdf_doc v of
        None \<Rightarrow> Some v
      | Some doc \<Rightarrow>
          if pages doc = [] then Some v
          else
            (case getitem doc (current_page v) of
               None \<Rightarrow> None
             | Some (Inl e) \<Rightarrow> Some v
             | Some (Inr page) \<Rightarrow>
                 (case render_page E page (fl (viewer_zoom v * (5 / 2))) of
                    Inl e \<Rightarrow> Some v
                  | Inr q_image \<Rightarrow> Some (update_page_info (v\<lparr>image_label := Some q_image\<rparr>)))))"

text \<open>
  \<^verbatim>\<open>display_pdf\<close> (lines 177 to 195): the viewer afterwards and the dialogs shown.
  Line 180 is the first statement of the \<^verbatim>\<open>try\<close>, before \<^verbatim>\<open>fitz.open\<close>.
\<close>

definition display_pdf :: "env \<Rightarrow> viewer \<Rightarrow> str \<Rightarrow> (viewer \<times> dialog list) option" where
  "display_pdf E v pdf_path =
     (let v1 = v\<lparr>selected_pdf := Some pdf_path\<rparr> in
      case fitz_open E pdf_path of
        Inl e \<Rightarrow> Some (v1, [Critical ''Error'' (''Could not display PDF: '' @ message e)])
      | Inr doc \<Rightarrow>
          (let n = int (length (pages doc));
               v2 = v1\<lparr>current_pdf_doc := Some doc, total_pages := n,
                       current_page := min 0 (n - 1)\<rparr>
           in map_option (\<lambda>v3. (v3, [])) (display_current_page E v2)))"

text \<open>\<^verbatim>\<open>if self.selected_pdf:\<close> holds for a string that is not empty.\<close>

definition has_selection :: "viewer \<Rightarrow> bool" where
  "has_selection v = (case selected_pdf v of None \<Rightarrow> False | Some p \<Rightarrow> p \<noteq> [])"

text \<open>
  \<^verbatim>\<open>zoom_in\<close>, \<^verbatim>\<open>zoom_out\<close> and \<^verbatim>\<open>zoom_reset\<close> (lines 250 to 266). The literals
  \<^verbatim>\<open>1.2\<close> and \<^verbatim>\<open>0.1\<close> are the floats nearest to 6/5 and 1/10.
\<close>

definition zoom_in :: "env \<Rightarrow> viewer \<Rightarrow> viewer option" where
  "zoom_in E v =
     (let v' = v\<lparr>viewer_zoom := min (fl (viewer_zoom v * fl (6 / 5))) 5\<rparr>
      in if has_selection v' then display_current_page E v' else Some v')"

definition zoom_out :: "env \<Rightarrow> viewer \<Rightarrow> viewer option" where
  "zoom_out E v =
     (let v' = v\<lparr>viewer_zoom := max (fl (viewer_zoom v / fl (6 / 5))) (fl (1 / 10))\<rparr>
      in if has_selection v' then display_current_page E v' else Some v')"

definition zoom_reset :: "env \<Rightarrow> viewer \<Rightarrow> viewer option" where
  "zoom_reset E v =
     (let v' = v\<lparr>viewer_zoom := 1\<rparr>
      in if has_selection v' then display_current_page E v' else Some v')"

datatype zoom_op = ZoomIn | ZoomOut | ZoomReset

fun apply_zoom :: "env \<Rightarrow> viewer \<Rightarrow> zoom_op \<Rightarrow> viewer option" where
  "apply_zoom E v ZoomIn = zoom_in E v"
| "apply_zoom E v ZoomOut = zoom_out E v"
| "apply_zoom E v ZoomReset = zoom_reset E v"

text \<open>A sequence of zoom operations, one after the other.\<close>

fun apply_zooms :: "env \<Rightarrow> viewer \<Rightarrow> zoom_op list \<Rightarrow> viewer option" where
  "apply_zooms E v [] = Some v"
| "apply_zooms E v (z # zs) =
     (case apply_zoom E v z of None \<Rightarrow> None | Some v' \<Rightarrow> apply_zooms E v' zs)"

section \<open>A concrete environment\<close>

text \<open>
  A POSIX folder \<^verbatim>\<open>/lib\<close> with \<^verbatim>\<open>a.pdf\<close> (three pages), \<^verbatim>\<open>b.pdf\<close> (no page) and a file
  of one page whose name, \<^verbatim>\<open>caf\<close>, the byte \<open>0xE9\<close> and \<^verbatim>\<open>.pdf\<close>, is not UTF-8, so that
  Python holds it with the surrogate \<open>0xDCE9\<close>; every other path does not exist.
  Modification times are whole seconds, which Python prints with the suffix \<^verbatim>\<open>.0\<close>.
  \<open>demo_digest\<close> has the shape of an MD5 hexdigest (32 hexadecimal digits) and not its
  values. A page is rasterized to 1224 by 1584 pixels; \<open>demo_thumbnail\<close> computes the
  dimensions as \<^verbatim>\<open>Image.thumbnail\<close> does, keeping the aspect ratio.
\<close>

definition demo_join :: "str \<Rightarrow> str \<Rightarrow> str" where
  "demo_join a b =
     (if b \<noteq> [] \<and> hd b = of_char CHR ''/'' then b
      else if a = [] \<or> last a = of_char CHR ''/'' then a @ b
      else a @ lit ''/'' @ b)"

definition demo_name :: "str \<Rightarrow> str" where
  "demo_name p = rev (takeWhile (\<lambda>c. c \<noteq> of_char CHR ''/'') (rev p))"

definition demo_stem :: "str \<Rightarrow> str" where
  "demo_stem p =
     (let n = demo_name p
      in if of_char CHR ''.'' \<in> set n
         then rev (tl (dropWhile (\<lambda>c. c \<noteq> of_char CHR ''.'') (rev n))) else n)"

definition demo_isalnum :: "nat \<Rightarrow> bool" where
  "demo_isalnum c =
     (c \<in> set (lit ''abcdefghijklmnopqrstuvwxyzABCDEFGHIJKLMNOPQRSTUVWXYZ0123456789''))"

definition demo_isspace :: "nat \<Rightarrow> bool" where
  "demo_isspace c = (c \<in> set [32, 9, 10, 11, 12, 13])"

definition demo_float_str :: "rat \<Rightarrow> str" where
  "demo_float_str m = str_int \<lfloor>m\<rfloor> @ lit ''.0''"

definition hex_digit :: "nat \<Rightarrow> nat" where
  "hex_digit d = of_char (''0123456789abcdef'' ! d)"

function hex_nat :: "nat \<Rightarrow> str" where
  "hex_nat h = (if h < 16 then [hex_digit h] else hex_digit (h mod 16) # hex_nat (h div 16))"
  by pat_completeness auto
termination
  by (relation "measure id") auto

definition demo_digest :: "nat list \<Rightarrow> str" where
  "demo_digest b =
     take 32 (hex_nat (foldl (\<lambda>h c. (h * 257 + c + 1) mod 16 ^ 32) 0 b)
              @ replicate 32 (of_char CHR ''0''))"

definition cafe_pdf :: str where
  "cafe_pdf = lit ''/lib/caf'' @ [0xDCE9] @ lit ''.pdf''"

definition demo_stat :: "str \<Rightarrow> error + rat" where
  "demo_stat p =
     (if p = lit ''/lib/a.pdf'' then Inr 1700000000
      else if p = lit ''/lib/b.pdf'' then Inr 1700000060
      else if p = cafe_pdf then Inr 1700000120
      else Inl (OSError ''No such file or directory''))"

definition demo_open :: "str \<Rightarrow> error + document" where
  "demo_open p =
     (if p = lit ''/lib/a.pdf'' then Inr (Document [''a1'', ''a2'', ''a3''])
      else if p = lit ''/lib/b.pdf'' then Inr (Document [])
      else if p = cafe_pdf then Inr (Document [''c1''])
      else Inl (FileDataError ''no such file''))"

definition demo_rasterize :: "page \<Rightarrow> error + image" where
  "demo_rasterize pg = Inr \<lparr>img_size = (1224, 1584), img_load = Inr pg\<rparr>"

definition round_aspect :: "rat \<Rightarrow> (int \<Rightarrow> rat) \<Rightarrow> nat" where
  "round_aspect number key =
     (let lo = \<lfloor>number\<rfloor>; hi = \<lceil>number\<rceil>
      in nat (max (if key hi < key lo then hi else lo) 1))"

definition demo_thumbnail :: "nat \<times> nat \<Rightarrow> image \<Rightarrow> error + image" where
  "demo_thumbnail sz img =
     (let x = fst sz; y = snd sz; wd = fst (img_size img); ht = snd (img_size img);
          aspect = of_nat wd / of_nat ht
      in if wd \<le> x \<and> ht \<le> y then Inr img
         else if aspect \<le> of_nat x / of_nat y
         then Inr (img\<lparr>img_size :=
                (round_aspect (of_nat y * aspect) (\<lambda>n. \<bar>aspect - of_int n / of_nat y\<bar>), y)\<rparr>)
         else Inr (img\<lparr>img_size :=
                (x, round_aspect (of_nat x / aspect)
                      (\<lambda>n. if n = 0 then 0 else \<bar>aspect - of_nat x / of_int n\<bar>))\<rparr>))"

definition demo_render_page :: "page \<Rightarrow> rat \<Rightarrow> error + image" where
  "demo_render_page pg z = Inr \<lparr>img_size = (612, 792), img_load = Inr pg\<rparr>"

definition demo_env :: env where
  "demo_env =
     \<lparr>os_stat = demo_stat, os_path_join = demo_join, path_stem = demo_stem,
      path_name = demo_name, isalnum = demo_isalnum, isspace = demo_isspace,
      float_str = demo_float_str, md5_hexdigest = demo_digest, fitz_open = demo_open,
      rasterize = demo_rasterize, thumbnail = demo_thumbnail,
      render_page = demo_render_page\<rparr>"



definition demo_worker :: worker where
  "demo_worker = init_worker [lit ''a.pdf'', lit ''b.pdf''] (lit ''/lib'') (100, 140) 5"

definition empty_disk :: disk where
  "empty_disk = \<lparr>files = Map.empty, refused = (\<lambda>f. None), writable = True\<rparr>"


definition corrupt_disk :: disk where
  "corrupt_disk =
     \<lparr>files = [lit ''a_0bfeb524f938_p5.png'' \<mapsto> Corrupt], refused = (\<lambda>f. None),
      writable = True\<rparr>"

definition truncated_image :: image where
  "truncated_image =
     \<lparr>img_size = (100, 129), img_load = Inl (OSError ''image file is truncated'')\<rparr>"

definition truncated_disk :: disk where
  "truncated_disk =
     \<lparr>files = [lit ''a_0bfeb524f938_p5.png'' \<mapsto> Png truncated_image], refused = (\<lambda>f. None),
      writable = True\<rparr>"


text \<open>
  The thumbnail of the first page of \<^verbatim>\<open>/lib/a.pdf\<close>, and the cache directory once it is
  stored for page 5.
\<close>

definition thumbnail_a :: image where
  "thumbnail_a = \<lparr>img_size = (100, 129), img_load = Inr ''a1''\<rparr>"

definition disk_after_a :: disk where
  "disk_after_a =
     \<lparr>files = [lit ''a_0bfeb524f938_p5.png'' \<mapsto> Png thumbnail_a], refused = (\<lambda>f. None),
      writable = True\<rparr>"

text \<open>The viewer after \<^verbatim>\<open>/lib/a.pdf\<close> is displayed in the viewer of \<^verbatim>\<open>__init__\<close>.\<close>

definition viewer_a :: viewer where
  "viewer_a =
     \<lparr>current_pdf_doc = Some (Document [''a1'', ''a2'', ''a3'']), current_page = 0,
      total_pages = 3, viewer_zoom = 1, selected_pdf = Some (lit ''/lib/a.pdf''),
      image_label = Some \<lparr>img_size = (612, 792), img_load = Inr ''a1''\<rparr>,
      page_label = lit ''Page: 1 / 3'', page_entry = lit ''1''\<rparr>"

section \<open>Evaluation of the concrete environment\<close>

declare str_nat.simps [simp del]
declare expo.simps [simp del]
declare hex_nat.simps [simp del]

lemma floor_rat_numeral_divide [simp]:
  "\<lfloor>numeral a / numeral b :: rat\<rfloor> = numeral a div numeral b"
  using floor_divide_of_int_eq [of "numeral a" "numeral b", where ?'a = rat] by simp

lemma ceiling_rat_numeral_divide [simp]:
  "\<lceil>numeral a / numeral b :: rat\<rceil> = - (- numeral a div numeral b)"
  using ceiling_divide_eq_div [of "numeral a" "numeral b", where ?'a = rat] by simp

lemma lit_simps [simp]: "lit [] = []" "lit (c # cs) = of_char c # lit cs"
  by (simp_all add: lit_def)

lemma str_nat_digit: "n < 10 \<Longrightarrow> str_nat n = [digit_char n]"
  by (simp add: str_nat.simps)

lemma demo_env_sel:
  "os_stat demo_env = demo_stat" "os_path_join demo_env = demo_join"
  "path_stem demo_env = demo_stem" "path_name demo_env = demo_name"
  "isalnum demo_env = demo_isalnum" "isspace demo_env = demo_isspace"
  "float_str demo_env = demo_float_str" "md5_hexdigest demo_env = demo_digest"
  "fitz_open demo_env = demo_open" "rasterize demo_env = demo_rasterize"
  "thumbnail demo_env = demo_thumbnail" "render_page demo_env = demo_render_page"
  by (simp_all add: demo_env_def)

lemma init_worker_sel:
  "pdf_files (init_worker fs folder sz pg) = fs" "folder_path (init_worker fs folder sz pg) = folder"
  "thumbnail_size (init_worker fs folder sz pg) = sz" "page_num (init_worker fs folder sz pg) = pg"
  "is_running (init_worker fs folder sz pg) = True"
  by (simp_all add: init_worker_def)

lemma demo_key_a [simplified]:
  "cache_key demo_env (lit ''/lib/a.pdf'') 1700000000 5 = lit ''/lib/a.pdf_1700000000.0_5''"
  by (simp add: cache_key_def demo_env_sel demo_float_str_def str_int_def str_nat.simps
      digit_char_def)

lemma demo_hash_a [simplified]:
  "hash_name demo_env (lit ''/lib/a.pdf_1700000000.0_5'') = Inr (lit ''0bfeb524f938'')"
  by (simp add: hash_name_def encode_def is_surrogate_def utf8_char_def demo_env_sel
      demo_digest_def hex_nat.simps hex_digit_def)

lemma demo_stat_a [simplified]: "os_stat demo_env (lit ''/lib/a.pdf'') = Inr 1700000000"
  by (simp add: demo_env_sel demo_stat_def)

lemma demo_stem_a [simplified]: "safe_filename demo_env (path_stem demo_env (lit ''/lib/a.pdf'')) = lit ''a''"
  by (simp add: safe_filename_def rstrip_def demo_env_sel demo_stem_def demo_name_def
      demo_isalnum_def demo_isspace_def)

lemma demo_name_a [simplified]:
  "get_cache_filename demo_env (lit ''/lib/a.pdf'') 5 = lit ''a_0bfeb524f938_p5.png''"
  by (simp add: get_cache_filename_def demo_stat_a demo_key_a demo_hash_a demo_stem_a
      str_int_def str_nat_digit digit_char_def)


lemma demo_open_a [simplified]:
  "fitz_open demo_env (lit ''/lib/a.pdf'') = Inr (Document [''a1'', ''a2'', ''a3''])"
  by (simp add: demo_env_sel demo_open_def)

lemma demo_open_b [simplified]: "fitz_open demo_env (lit ''/lib/b.pdf'') = Inr (Document [])"
  by (simp add: demo_env_sel demo_open_def)

lemma demo_open_ghost [simplified]:
  "fitz_open demo_env (lit ''/lib/ghost.pdf'') = Inl (FileDataError ''no such file'')"
  by (simp add: demo_env_sel demo_open_def cafe_pdf_def)


lemma empty_disk_sel:
  "files empty_disk = Map.empty" "refused empty_disk = (\<lambda>f. None)" "writable empty_disk = True"
  by (simp_all add: empty_disk_def)

lemma demo_worker_sel:
  "thumbnail_size demo_worker = (100, 140)" "page_num demo_worker = 5"
  "folder_path demo_worker = lit ''/lib''" "pdf_files demo_worker = [lit ''a.pdf'', lit ''b.pdf'']"
  "is_running demo_worker = True"
  by (simp_all add: demo_worker_def init_worker_sel)

lemma demo_thumbnail_page:
  "demo_thumbnail (100, 140) \<lparr>img_size = (1224, 1584), img_load = x\<rparr>
     = Inr \<lparr>img_size = (100, 129), img_load = x\<rparr>"
  by (simp add: demo_thumbnail_def round_aspect_def Let_def)

section \<open>Indexing a document\<close>

lemma load_page_index_nonneg: "0 \<le> i \<Longrightarrow> load_page_index np i = Some i"
  by (subst load_page_index.simps) simp

text \<open>With a page count of zero the loop of \<^verbatim>\<open>load_page\<close> returns for no negative index.\<close>

lemma load_page_index_zero_returns:
  assumes "load_page_index np i = Some j"
  shows "np = 0 \<longrightarrow> 0 \<le> i"
proof (rule load_page_index.raw_induct [where P = "\<lambda>np i j. np = 0 \<longrightarrow> 0 \<le> i", OF _ assms])
  fix f :: "int \<Rightarrow> int \<Rightarrow> int option" and np i j :: int
  assume IH: "\<And>np i y. f np i = Some y \<Longrightarrow> np = 0 \<longrightarrow> 0 \<le> i"
    and st: "(if i < 0 then f np (i + np) else Some i) = Some j"
  show "np = 0 \<longrightarrow> 0 \<le> i"
  proof (intro impI, rule ccontr)
    assume z: "np = 0" and n: "\<not> 0 \<le> i"
    with st have "f np (i + np) = Some j" by simp
    from IH [OF this] z n show False by simp
  qed
qed

lemma load_page_index_zero: "i < 0 \<Longrightarrow> load_page_index 0 i = None"
  using load_page_index_zero_returns [of 0 i] by (cases "load_page_index 0 i") auto

text \<open>With a positive page count it returns for every index.\<close>

lemma load_page_index_pos: "0 < np \<Longrightarrow> \<exists>j. load_page_index np i = Some j"
proof (induction "nat (- i)" arbitrary: i rule: less_induct)
  case less
  show ?case
  proof (cases "i < 0")
    case False
    then show ?thesis by (simp add: load_page_index_nonneg)
  next
    case True
    have e: "load_page_index np i = load_page_index np (i + np)"
      using True by (subst load_page_index.simps) simp
    have "nat (- (i + np)) < nat (- i)" using True less.prems by linarith
    from less.hyps [OF this less.prems] show ?thesis unfolding e .
  qed
qed

lemma getitem_returns: "pages doc \<noteq> [] \<Longrightarrow> \<exists>r. getitem doc i = Some r"
  using load_page_index_pos [of "int (length (pages doc))" i]
  by (auto simp: getitem_def Let_def)

lemma getitem_first: "pages doc \<noteq> [] \<Longrightarrow> getitem doc 0 = Some (Inr (pages doc ! 0))"
  by (simp add: getitem_def Let_def load_page_index_nonneg)

lemma clamp_page_num_past_end: "1 \<le> n \<Longrightarrow> n \<le> pg \<Longrightarrow> clamp_page_num n pg = 0"
  by (simp add: clamp_page_num_def)

text \<open>
  For a document of no page, line 67 turns every requested index that is not negative
  into \<open>-1\<close>, and line 69 does not return, whatever the index.
\<close>

lemma getitem_no_page:
  "pages doc = [] \<Longrightarrow> getitem doc (clamp_page_num (int (length (pages doc))) pg) = None"
  by (simp add: getitem_def clamp_page_num_def load_page_index_zero)

section \<open>generate_thumbnail\<close>

lemma cached_thumbnail_empty: "cached_thumbnail empty_disk f = Inr None"
  by (simp add: cached_thumbnail_def path_exists_def empty_disk_def)

text \<open>
  C1. The claim: for a document of at least one page, a requested index at or past the
  page count renders the last page. The comment of line 67 says the same
  (\<^verbatim>\<open>Use last page if requested page doesn't exist\<close>), but the line computes
  \<^verbatim>\<open>min(len(doc) - 1, 0)\<close>, which is 0 for every document with a page. For the three
  pages of \<^verbatim>\<open>/lib/a.pdf\<close> and the requested index 5 the code returns the thumbnail of
  the first page \<open>a1\<close>, not of the last page \<open>a3\<close>.
\<close>

theorem past_end_renders_first_page:
  "map_option (map_sum id fst)
     (generate_thumbnail demo_env demo_worker empty_disk (lit ''/lib/a.pdf'') 5)
     = Some (Inr \<lparr>img_size = (100, 129), img_load = Inr ''a1''\<rparr>)"
  by (simp add: generate_thumbnail_def cached_thumbnail_empty render_thumbnail_def
      demo_open_a clamp_page_num_def getitem_def load_page_index_nonneg demo_env_sel(10-12)
      demo_rasterize_def demo_thumbnail_page demo_worker_sel save_def empty_disk_sel Let_def)




text \<open>
  For every document of no page and every requested index the call does not return,
  unless the cache answers first.
\<close>

lemma no_page_never_returns:
  assumes "cached_thumbnail d (get_cache_filename E p k) = Inr None"
    and "fitz_open E p = Inr doc" and "pages doc = []"
  shows "generate_thumbnail E w d p k = None"
  using assms getitem_no_page [of doc k]
  by (simp add: generate_thumbnail_def render_thumbnail_def)

text \<open>
  A file that \<^verbatim>\<open>Image.open\<close> rejects is a miss: the call returns what the body of the
  \<^verbatim>\<open>try\<close> of line 64 gives, or the placeholder, as it does when the file is absent.
\<close>

lemma rejected_cache_file_is_a_miss:
  assumes "files d (get_cache_filename E p k) = Some Corrupt"
    and "refused d (get_cache_filename E p k) = None"
  shows "cached_thumbnail d (get_cache_filename E p k) = Inr None
         \<and> generate_thumbnail E w d p k =
             (case render_thumbnail E w d (get_cache_filename E p k) p k of
                None \<Rightarrow> None
              | Some (Inl e) \<Rightarrow> Some (Inr (create_placeholder_thumbnail w, d))
              | Some (Inr r) \<Rightarrow> Some (Inr r))"
proof -
  have "cached_thumbnail d (get_cache_filename E p k) = Inr None"
    using assms by (simp add: cached_thumbnail_def path_exists_def image_open_def)
  then show ?thesis
    by (simp add: generate_thumbnail_def split: option.split sum.split)
qed

lemma corrupt_regenerated:
  "generate_thumbnail demo_env demo_worker corrupt_disk (lit ''/lib/a.pdf'') 5
     = Some (Inr (\<lparr>img_size = (100, 129), img_load = Inr ''a1''\<rparr>,
        \<lparr>files = [lit ''a_0bfeb524f938_p5.png''
                    \<mapsto> Png \<lparr>img_size = (100, 129), img_load = Inr ''a1''\<rparr>],
         refused = (\<lambda>f. None), writable = True\<rparr>))"
  by (simp add: generate_thumbnail_def demo_name_a cached_thumbnail_def path_exists_def
      image_open_def corrupt_disk_def render_thumbnail_def demo_env_sel(10-12) demo_open_a
      clamp_page_num_def getitem_def load_page_index_nonneg demo_rasterize_def
      demo_thumbnail_page demo_worker_sel save_def Let_def)

text \<open>
  C8. The claim: a stored file that exists and does not decode is a miss, and the
  thumbnail is generated again. The comment of line 60 says the same
  (\<^verbatim>\<open>Corrupted cache file, regenerate\<close>), but the \<^verbatim>\<open>try\<close> of line 57 holds only
  \<^verbatim>\<open>Image.open\<close>, which reads the header of the file and not its pixels. For a PNG cut
  short after its header, stored under the name derived for page 5 of \<^verbatim>\<open>/lib/a.pdf\<close>,
  the lookup is a hit: the call returns the image whose pixels do not load and leaves
  the file in place, where a call with the file absent renders the page and stores it.
\<close>

theorem truncated_cache_file_is_a_hit:
  "files truncated_disk (get_cache_filename demo_env (lit ''/lib/a.pdf'') 5)
     = Some (Png truncated_image)
   \<and> img_load truncated_image = Inl (OSError ''image file is truncated'')
   \<and> cached_thumbnail truncated_disk (get_cache_filename demo_env (lit ''/lib/a.pdf'') 5)
       = Inr (Some truncated_image)
   \<and> generate_thumbnail demo_env demo_worker truncated_disk (lit ''/lib/a.pdf'') 5
       = Some (Inr (truncated_image, truncated_disk))
   \<and> map_option (map_sum id fst)
       (generate_thumbnail demo_env demo_worker empty_disk (lit ''/lib/a.pdf'') 5)
       = Some (Inr \<lparr>img_size = (100, 129), img_load = Inr ''a1''\<rparr>)"
proof -
  have 1: "files truncated_disk (get_cache_filename demo_env (lit ''/lib/a.pdf'') 5)
     = Some (Png truncated_image)"
    by (simp add: demo_name_a truncated_disk_def)
  have 2: "img_load truncated_image = Inl (OSError ''image file is truncated'')"
    by (simp add: truncated_image_def)
  have 3: "cached_thumbnail truncated_disk (get_cache_filename demo_env (lit ''/lib/a.pdf'') 5)
       = Inr (Some truncated_image)"
    by (simp add: demo_name_a cached_thumbnail_def path_exists_def image_open_def
        truncated_disk_def)
  have 4: "generate_thumbnail demo_env demo_worker truncated_disk (lit ''/lib/a.pdf'') 5
       = Some (Inr (truncated_image, truncated_disk))"
    using 3 by (simp add: generate_thumbnail_def Let_def)
  have 5: "map_option (map_sum id fst)
       (generate_thumbnail demo_env demo_worker empty_disk (lit ''/lib/a.pdf'') 5)
       = Some (Inr \<lparr>img_size = (100, 129), img_load = Inr ''a1''\<rparr>)"
    by (simp add: generate_thumbnail_def cached_thumbnail_empty render_thumbnail_def
        demo_open_a clamp_page_num_def getitem_def load_page_index_nonneg demo_env_sel(10-12)
        demo_rasterize_def demo_thumbnail_page demo_worker_sel save_def empty_disk_sel Let_def)
  from 1 2 3 4 5 show ?thesis by (simp only: simp_thms)
qed

section \<open>display_pdf\<close>

lemma display_current_page_returns:
  "\<exists>v'. display_current_page E v = Some v' \<and> viewer_zoom v' = viewer_zoom v"
proof (cases "current_pdf_doc v")
  case None
  then show ?thesis by (simp add: display_current_page_def)
next
  case (Some doc)
  show ?thesis
  proof (cases "pages doc = []")
    case True
    with Some show ?thesis by (simp add: display_current_page_def)
  next
    case False
    from getitem_returns [OF False] obtain r where "getitem doc (current_page v) = Some r"
      by blast
    with Some False show ?thesis
      by (simp add: display_current_page_def update_page_info_def split: sum.split)
  qed
qed

text \<open>
  C2, as amended. When the document does not open, \<open>display_pdf\<close> shows one error dialog
  with the reason and leaves \<open>current_pdf_doc\<close>, \<open>current_page\<close>, \<open>total_pages\<close> and the
  zoom as they were; \<open>selected_pdf\<close> is the path that failed to open.
\<close>

theorem display_pdf_open_failure:
  assumes "fitz_open E p = Inl e"
  shows "display_pdf E v p =
           Some (v\<lparr>selected_pdf := Some p\<rparr>,
                 [Critical ''Error'' (''Could not display PDF: '' @ message e)])
         \<and> map_option (\<lambda>r. current_pdf_doc (fst r)) (display_pdf E v p) = Some (current_pdf_doc v)
         \<and> map_option (\<lambda>r. current_page (fst r)) (display_pdf E v p) = Some (current_page v)
         \<and> map_option (\<lambda>r. total_pages (fst r)) (display_pdf E v p) = Some (total_pages v)
         \<and> map_option (\<lambda>r. viewer_zoom (fst r)) (display_pdf E v p) = Some (viewer_zoom v)
         \<and> map_option (\<lambda>r. selected_pdf (fst r)) (display_pdf E v p) = Some (Some p)"
  using assms by (simp add: display_pdf_def)

theorem display_pdf_open_failure_witness:
  "fitz_open demo_env (lit ''/lib/ghost.pdf'') = Inl (FileDataError ''no such file'')
   \<and> display_pdf demo_env init_viewer (lit ''/lib/ghost.pdf'') =
       Some (init_viewer\<lparr>selected_pdf := Some (lit ''/lib/ghost.pdf'')\<rparr>,
             [Critical ''Error'' ''Could not display PDF: no such file''])"
proof -
  have h: "fitz_open demo_env (lit ''/lib/ghost.pdf'') = Inl (FileDataError ''no such file'')"
    by (simp add: demo_open_ghost)
  show ?thesis
    using h display_pdf_open_failure [OF h, of init_viewer] by simp
qed

text \<open>
  C2 as stated fails for \<open>selected_pdf\<close>, which line 180 assigns before the document is
  opened: after \<^verbatim>\<open>/lib/a.pdf\<close> is displayed, a failed \<open>display_pdf\<close> of the missing
  \<^verbatim>\<open>/lib/ghost.pdf\<close> changes \<open>selected_pdf\<close> from the one to the other.
\<close>

theorem display_pdf_changes_selected_pdf:
  "fitz_open demo_env (lit ''/lib/ghost.pdf'') = Inl (FileDataError ''no such file'')
   \<and> display_pdf demo_env init_viewer (lit ''/lib/a.pdf'') = Some (viewer_a, [])
   \<and> selected_pdf viewer_a = Some (lit ''/lib/a.pdf'')
   \<and> map_option (\<lambda>r. selected_pdf (fst r)) (display_pdf demo_env viewer_a (lit ''/lib/ghost.pdf''))
       = Some (Some (lit ''/lib/ghost.pdf''))
   \<and> map_option (\<lambda>r. selected_pdf (fst r)) (display_pdf demo_env viewer_a (lit ''/lib/ghost.pdf''))
       \<noteq> Some (selected_pdf viewer_a)"
proof -
  have 1: "fitz_open demo_env (lit ''/lib/ghost.pdf'') = Inl (FileDataError ''no such file'')"
    by (simp add: demo_open_ghost)
  have 2: "display_pdf demo_env init_viewer (lit ''/lib/a.pdf'') = Some (viewer_a, [])"
    by (simp add: display_pdf_def demo_env_sel(10-12) demo_open_a display_current_page_def
        getitem_def load_page_index_nonneg demo_render_page_def update_page_info_def
        init_viewer_def viewer_a_def str_int_def str_nat_digit digit_char_def Let_def)
  have 3: "selected_pdf viewer_a = Some (lit ''/lib/a.pdf'')"
    by (simp add: viewer_a_def)
  have 4: "map_option (\<lambda>r. selected_pdf (fst r))
      (display_pdf demo_env viewer_a (lit ''/lib/ghost.pdf'')) = Some (Some (lit ''/lib/ghost.pdf''))"
    by (simp add: display_pdf_def demo_open_ghost)
  have 5: "Some (Some (lit ''/lib/ghost.pdf'')) \<noteq> Some (selected_pdf viewer_a)"
    by (simp add: viewer_a_def)
  from 1 2 3 4 5 show ?thesis by (simp only: simp_thms)
qed

section \<open>run\<close>

text \<open>
  C9. A run over the empty list emits no event, raises nothing, returns and leaves the
  cache directory as it was, whatever the schedule of \<^verbatim>\<open>stop\<close>: line 50 is inside the
  loop body, so its division, which raises for a total of zero, is not executed.
\<close>

theorem empty_run:
  "events (run E sched (init_worker [] folder sz pg) d) = []
   \<and> raised (run E sched (init_worker [] folder sz pg) d) = None
   \<and> hangs (run E sched (init_worker [] folder sz pg) d) = False
   \<and> cache (run E sched (init_worker [] folder sz pg) d) = d
   \<and> progress_value i 0 = Inl (ZeroDivisionError ''division by zero'')"
  by (simp add: run_def init_worker_def deliver_def progress_value_def)

section \<open>Decimal rendering is injective\<close>













section \<open>UTF-8 is injective\<close>










section \<open>get_cache_filename\<close>

lemma safe_filename_chars:
  "c \<in> set (safe_filename E s) \<Longrightarrow> isalnum E c \<or> c = of_char CHR ''-'' \<or> c = of_char CHR ''_''"
proof -
  assume "c \<in> set (safe_filename E s)"
  then have "c \<in> set (dropWhile (isspace E)
      (rev (filter (\<lambda>c. isalnum E c \<or> c = of_char CHR ''-'' \<or> c = of_char CHR ''_'') s)))"
    by (simp add: safe_filename_def rstrip_def)
  then have "c \<in> set (rev (filter (\<lambda>c. isalnum E c \<or> c = of_char CHR ''-'' \<or> c = of_char CHR ''_'') s))"
    by (rule set_dropWhileD)
  then show ?thesis by simp
qed



lemma demo_name_cafe [simplified]:
  "get_cache_filename demo_env cafe_pdf 0 = lit ''cafpdf_p0.png''"
  by (simp add: get_cache_filename_def fallback_filename_def demo_env_sel demo_stat_def
      cafe_pdf_def cache_key_def hash_name_def encode_def is_surrogate_def
      safe_filename_def rstrip_def demo_name_def demo_isalnum_def demo_isspace_def
      str_int_def str_nat_digit digit_char_def)





lemma demo_stat_cafe: "os_stat demo_env cafe_pdf = Inr 1700000120"
  by (simp add: demo_env_sel demo_stat_def cafe_pdf_def)

lemma encode_ascii_a [simplified]:
  "encode (lit ''/lib/a.pdf_1700000000.0_5'') = Inr (lit ''/lib/a.pdf_1700000000.0_5'')"
  by (simp add: encode_def is_surrogate_def utf8_char_def)


lemma hash_name_encoded: "encode key = Inr b \<Longrightarrow> hash_name E key = Inr (take 12 (md5_hexdigest E b))"
  by (simp add: hash_name_def)

lemma demo_digest_length: "length (md5_hexdigest demo_env b) = 32"
  by (simp add: demo_env_sel demo_digest_def)

text \<open>
  C4, as amended. When \<^verbatim>\<open>os.stat\<close> succeeds and the key of line 91 encodes, the file
  name is the sanitized stem, an underscore, the hash component, \<^verbatim>\<open>_p\<close>, the page index
  and \<^verbatim>\<open>.png\<close>; the sanitized stem holds only alphanumeric characters, hyphens and
  underscores; the hash component is the first 12 hexadecimal digits of the digest, which
  carry at most 48 bits, and exactly 48 for a digest of 32 digits such as MD5's.
\<close>

theorem cache_filename_shape:
  assumes "os_stat E p = Inr m" and "encode (cache_key E p m k) = Inr b"
  shows "get_cache_filename E p k =
           safe_filename E (path_stem E p) @ lit ''_'' @ take 12 (md5_hexdigest E b) @ lit ''_p''
             @ str_int k @ lit ''.png''
         \<and> (\<forall>c \<in> set (safe_filename E (path_stem E p)).
               isalnum E c \<or> c = of_char CHR ''-'' \<or> c = of_char CHR ''_'')
         \<and> hash_name E (cache_key E p m k) = Inr (take 12 (md5_hexdigest E b))
         \<and> hex_bits (take 12 (md5_hexdigest E b)) \<le> 48
         \<and> (length (md5_hexdigest E b) = 32 \<longrightarrow> hex_bits (take 12 (md5_hexdigest E b)) = 48)"
proof -
  have 3: "hash_name E (cache_key E p m k) = Inr (take 12 (md5_hexdigest E b))"
    using assms(2) by (rule hash_name_encoded)
  have 1: "get_cache_filename E p k =
           safe_filename E (path_stem E p) @ lit ''_'' @ take 12 (md5_hexdigest E b) @ lit ''_p''
             @ str_int k @ lit ''.png''"
    using assms(1) 3 by (simp add: get_cache_filename_def)
  have 2: "\<forall>c \<in> set (safe_filename E (path_stem E p)).
               isalnum E c \<or> c = of_char CHR ''-'' \<or> c = of_char CHR ''_''"
    using safe_filename_chars by blast
  have 4: "hex_bits (take 12 (md5_hexdigest E b)) \<le> 48"
    by (simp add: hex_bits_def)
  have 5: "length (md5_hexdigest E b) = 32 \<longrightarrow> hex_bits (take 12 (md5_hexdigest E b)) = 48"
    by (simp add: hex_bits_def)
  from 1 2 3 4 5 show ?thesis by blast
qed

theorem cache_filename_shape_witness:
  "os_stat demo_env (lit ''/lib/a.pdf'') = Inr 1700000000
   \<and> encode (cache_key demo_env (lit ''/lib/a.pdf'') 1700000000 5)
       = Inr (lit ''/lib/a.pdf_1700000000.0_5'')
   \<and> get_cache_filename demo_env (lit ''/lib/a.pdf'') 5 =
       safe_filename demo_env (path_stem demo_env (lit ''/lib/a.pdf'')) @ lit ''_''
         @ take 12 (md5_hexdigest demo_env (lit ''/lib/a.pdf_1700000000.0_5'')) @ lit ''_p''
         @ str_int 5 @ lit ''.png''
   \<and> hex_bits (take 12 (md5_hexdigest demo_env (lit ''/lib/a.pdf_1700000000.0_5''))) = 48"
proof -
  have s: "os_stat demo_env (lit ''/lib/a.pdf'') = Inr 1700000000"
    by (simp add: demo_stat_a)
  have e: "encode (cache_key demo_env (lit ''/lib/a.pdf'') 1700000000 5)
       = Inr (lit ''/lib/a.pdf_1700000000.0_5'')"
    by (simp add: demo_key_a encode_ascii_a)
  from cache_filename_shape [OF s e] s e demo_digest_length show ?thesis by blast
qed

text \<open>
  C4 as stated asks for at least 96 bits of the digest. Line 92 keeps
  \<^verbatim>\<open>hexdigest()[:12]\<close>, twelve hexadecimal digits of four bits each: for page 5 of
  \<^verbatim>\<open>/lib/a.pdf\<close> the hash component has 48 bits. (The digits shown are those of
  \<open>demo_digest\<close>; their number is the code's.) And a successful \<^verbatim>\<open>os.stat\<close> is not enough
  for a hash component: the key of the third file, whose name holds a surrogate, does
  not encode, and line 100 gives it a name with no hash at all.
\<close>

theorem hash_component_has_48_bits:
  "os_stat demo_env (lit ''/lib/a.pdf'') = Inr 1700000000
   \<and> get_cache_filename demo_env (lit ''/lib/a.pdf'') 5 = lit ''a_0bfeb524f938_p5.png''
   \<and> hash_name demo_env (cache_key demo_env (lit ''/lib/a.pdf'') 1700000000 5)
       = Inr (lit ''0bfeb524f938'')
   \<and> hex_bits (lit ''0bfeb524f938'') = 48
   \<and> \<not> 96 \<le> hex_bits (lit ''0bfeb524f938'')
   \<and> os_stat demo_env cafe_pdf = Inr 1700000120
   \<and> hash_name demo_env (cache_key demo_env cafe_pdf 1700000120 0)
       = Inl (UnicodeEncodeError ''surrogates not allowed'')
   \<and> get_cache_filename demo_env cafe_pdf 0 = lit ''cafpdf_p0.png''"
proof -
  have "hash_name demo_env (cache_key demo_env cafe_pdf 1700000120 0)
       = Inl (UnicodeEncodeError ''surrogates not allowed'')"
    by (simp add: hash_name_def encode_def cache_key_def cafe_pdf_def is_surrogate_def)
  then show ?thesis
    by (simp add: demo_stat_a demo_name_a demo_key_a demo_hash_a hex_bits_def demo_stat_cafe
        demo_name_cafe)
qed








section \<open>Rounding to the nearest float\<close>

lemma pow2_powi: "pow2 e = 2 powi e"
  by (simp add: pow2_def power_int_def power_one_over inverse_eq_divide)

lemma pow2_pos: "0 < pow2 e"
  by (simp add: pow2_def)

lemma pow2_add: "pow2 (a + b) = pow2 a * pow2 b"
  by (simp add: pow2_powi power_int_add)

lemma pow2_one: "pow2 1 = 2"
  by (simp add: pow2_def)

lemma pow2_succ: "pow2 (e + 1) = 2 * pow2 e"
  using pow2_add [of e 1] by (simp only: pow2_one mult.commute)

lemma pow2_pred: "pow2 (e - 1) = pow2 e / 2"
  using pow2_succ [of "e - 1"] by simp

lemma pow2_ge_one: "0 \<le> e \<Longrightarrow> 1 \<le> pow2 e"
  by (simp add: pow2_def)

lemma pow2_mono: "a \<le> b \<Longrightarrow> pow2 a \<le> pow2 b"
proof -
  assume "a \<le> b"
  then have "1 \<le> pow2 (b - a)" by (simp add: pow2_ge_one)
  then have "pow2 a * 1 \<le> pow2 a * pow2 (b - a)"
    using pow2_pos [of a] by (intro mult_left_mono) simp_all
  also have "pow2 a * pow2 (b - a) = pow2 b" using pow2_add [of a "b - a"] by simp
  finally show ?thesis by simp
qed

lemma pow2_less_imp: "pow2 a < pow2 b \<Longrightarrow> a < b"
  using pow2_mono [of b a] by (cases "a < b") simp_all

lemma expo_bounds: "0 < x \<Longrightarrow> pow2 (expo x) \<le> x \<and> x < pow2 (expo x + 1)"
proof (induction x rule: expo.induct)
  case (1 x)
  consider "2 \<le> x" | "x < 1" | "1 \<le> x" "x < 2" by linarith
  then show ?case
  proof cases
    case 1
    have e: "expo x = expo (x / 2) + 1" using 1 "1.prems" by (subst expo.simps) simp
    have "pow2 (expo (x / 2)) \<le> x / 2 \<and> x / 2 < pow2 (expo (x / 2) + 1)"
      using "1.IH"(1) 1 "1.prems" by simp
    then have "pow2 (expo (x / 2)) \<le> x / 2" "x / 2 < pow2 (expo (x / 2) + 1)" by simp_all
    moreover have "pow2 (expo (x / 2) + 1) = 2 * pow2 (expo (x / 2))" by (rule pow2_succ)
    moreover have "pow2 (expo x) = 2 * pow2 (expo (x / 2))" unfolding e by (rule pow2_succ)
    moreover have "pow2 (expo x + 1) = 2 * pow2 (expo x)" by (rule pow2_succ)
    ultimately show ?thesis by linarith
  next
    case 2
    have e: "expo x = expo (x * 2) - 1" using 2 "1.prems" by (subst expo.simps) simp
    have "pow2 (expo (x * 2)) \<le> x * 2 \<and> x * 2 < pow2 (expo (x * 2) + 1)"
      using "1.IH"(2) 2 "1.prems" by simp
    then have "pow2 (expo (x * 2)) \<le> x * 2" "x * 2 < pow2 (expo (x * 2) + 1)" by simp_all
    moreover have "pow2 (expo x + 1) = pow2 (expo (x * 2))" unfolding e by simp
    moreover have "pow2 (expo x + 1) = 2 * pow2 (expo x)" by (rule pow2_succ)
    moreover have "pow2 (expo (x * 2) + 1) = 2 * pow2 (expo (x * 2))" by (rule pow2_succ)
    ultimately show ?thesis by linarith
  next
    case 3
    have e: "expo x = 0" using 3 by (subst expo.simps) simp
    show ?thesis using 3 by (simp add: e pow2_def)
  qed
qed

lemma expo_mono: "0 < x \<Longrightarrow> x \<le> y \<Longrightarrow> expo x \<le> expo y"
proof -
  assume x: "0 < x" and xy: "x \<le> y"
  then have y: "0 < y" by simp
  from expo_bounds [OF x] expo_bounds [OF y] xy
  have "pow2 (expo x) < pow2 (expo y + 1)" by linarith
  then have "expo x < expo y + 1" by (rule pow2_less_imp)
  then show ?thesis by simp
qed

lemma rne_ge_floor: "\<lfloor>q\<rfloor> \<le> rne q"
  by (simp add: rne_def Let_def)

lemma rne_le_floor: "rne q \<le> \<lfloor>q\<rfloor> + 1"
  by (simp add: rne_def Let_def)

lemma rne_of_int: "rne (of_int n) = n"
  by (simp add: rne_def Let_def)

lemma rne_lower: "of_int n \<le> q \<Longrightarrow> n \<le> rne q"
proof -
  assume "of_int n \<le> q"
  then have "n \<le> \<lfloor>q\<rfloor>" by (simp add: le_floor_iff)
  with rne_ge_floor [of q] show ?thesis by simp
qed

lemma rne_upper: "q \<le> of_int n \<Longrightarrow> rne q \<le> n"
proof (cases "q = of_int n")
  case True
  then show ?thesis by (simp add: rne_of_int)
next
  case False
  assume "q \<le> of_int n"
  with False have "q < of_int n" by simp
  then have "\<lfloor>q\<rfloor> < n" by (simp add: floor_less_iff)
  with rne_le_floor [of q] show ?thesis by simp
qed

lemma rne_mono: "x \<le> y \<Longrightarrow> rne x \<le> rne y"
proof -
  assume xy: "x \<le> y"
  then have "\<lfloor>x\<rfloor> \<le> \<lfloor>y\<rfloor>" by (rule floor_mono)
  then consider "\<lfloor>x\<rfloor> < \<lfloor>y\<rfloor>" | "\<lfloor>x\<rfloor> = \<lfloor>y\<rfloor>" by linarith
  then show ?thesis
  proof cases
    case 1
    with rne_le_floor [of x] rne_ge_floor [of y] show ?thesis by simp
  next
    case 2
    have "x - of_int \<lfloor>y\<rfloor> \<le> y - of_int \<lfloor>y\<rfloor>" using xy by simp
    then show ?thesis
      unfolding rne_def Let_def 2 by (auto split: if_splits)
  qed
qed

lemma fl_pos_eq:
  "0 < x \<Longrightarrow> fl x = of_int (rne (x / pow2 (expo x - 52))) * pow2 (expo x - 52)"
  by (simp add: fl_def Let_def)

lemma pow2_52: "pow2 52 = of_int (2 ^ 52)" and pow2_53: "pow2 53 = of_int (2 ^ 53)"
  by (simp_all add: pow2_def)

lemma fl_bounds:
  assumes "0 < x"
  shows "pow2 (expo x) \<le> fl x \<and> fl x \<le> pow2 (expo x + 1)"
proof -
  let ?e = "expo x"
  let ?u = "pow2 (?e - 52)"
  have u: "0 < ?u" by (rule pow2_pos)
  have lo: "pow2 ?e = pow2 52 * ?u" using pow2_add [of 52 "?e - 52"] by simp
  have hi: "pow2 (?e + 1) = pow2 53 * ?u"
    using pow2_add [of 53 "?e - 52"] by (simp add: add.commute)
  from expo_bounds [OF assms] have b: "pow2 52 * ?u \<le> x" "x < pow2 53 * ?u"
    by (simp_all add: lo hi)
  from b(1) u have "pow2 52 \<le> x / ?u" by (simp add: pos_le_divide_eq)
  then have "(2 ^ 52 :: int) \<le> rne (x / ?u)" unfolding pow2_52 by (rule rne_lower)
  then have "(of_int (2 ^ 52) :: rat) \<le> of_int (rne (x / ?u))" by (simp only: of_int_le_iff)
  then have 1: "pow2 52 * ?u \<le> of_int (rne (x / ?u)) * ?u"
    unfolding pow2_52 using u by (intro mult_right_mono) simp_all
  from b(2) u have "x / ?u \<le> pow2 53" by (simp add: pos_divide_le_eq)
  then have "rne (x / ?u) \<le> (2 ^ 53 :: int)" unfolding pow2_53 by (rule rne_upper)
  then have "(of_int (rne (x / ?u)) :: rat) \<le> of_int (2 ^ 53)" by (simp only: of_int_le_iff)
  then have 2: "of_int (rne (x / ?u)) * ?u \<le> pow2 53 * ?u"
    unfolding pow2_53 using u by (intro mult_right_mono) simp_all
  from 1 2 show ?thesis by (simp only: fl_pos_eq [OF assms] lo hi)
qed

lemma fl_mono_pos:
  assumes x: "0 < x" and xy: "x \<le> y"
  shows "fl x \<le> fl y"
proof -
  from x xy have y: "0 < y" by simp
  from expo_mono [OF x xy] consider "expo x = expo y" | "expo x + 1 \<le> expo y" by linarith
  then show ?thesis
  proof cases
    case 1
    let ?u = "pow2 (expo y - 52)"
    have u: "0 < ?u" by (rule pow2_pos)
    from xy u have "x / ?u \<le> y / ?u" by (simp add: divide_right_mono)
    then have "rne (x / ?u) \<le> rne (y / ?u)" by (rule rne_mono)
    then have "(of_int (rne (x / ?u)) :: rat) \<le> of_int (rne (y / ?u))" by (simp only: of_int_le_iff)
    then have "of_int (rne (x / ?u)) * ?u \<le> of_int (rne (y / ?u)) * ?u"
      using u by (intro mult_right_mono) simp_all
    then show ?thesis by (simp only: fl_pos_eq [OF x] fl_pos_eq [OF y] 1)
  next
    case 2
    from fl_bounds [OF x] have "fl x \<le> pow2 (expo x + 1)" by simp
    also have "\<dots> \<le> pow2 (expo y)" using 2 by (rule pow2_mono)
    also have "\<dots> \<le> fl y" using fl_bounds [OF y] by simp
    finally show ?thesis .
  qed
qed

lemma fl_nonneg: "0 \<le> x \<Longrightarrow> 0 \<le> fl x"
proof (cases "x = 0")
  case True
  then show ?thesis by (simp add: fl_def)
next
  case False
  assume "0 \<le> x"
  with False have x: "0 < x" by simp
  from fl_bounds [OF x] pow2_pos [of "expo x"] show ?thesis by linarith
qed

lemma fl_mono: "0 \<le> x \<Longrightarrow> x \<le> y \<Longrightarrow> fl x \<le> fl y"
proof (cases "x = 0")
  case True
  assume "0 \<le> x" "x \<le> y"
  with True fl_nonneg [of y] show ?thesis by (simp add: fl_def)
next
  case False
  assume "0 \<le> x" "x \<le> y"
  with False show ?thesis by (intro fl_mono_pos) simp_all
qed

lemma fl_1: "fl 1 = 1"
  by (simp add: fl_def expo.simps pow2_def rne_def Let_def)

lemma fl_5: "fl 5 = 5"
  by (simp add: fl_def expo.simps pow2_def rne_def Let_def)

lemma fl_100: "fl 100 = 100"
  by (simp add: fl_def expo.simps pow2_def rne_def Let_def)

lemma fl_tenth: "fl (1 / 10) = 3602879701896397 / 36028797018963968"
  by (simp add: fl_def expo.simps pow2_def rne_def Let_def)

lemma fl_tenth_idem: "fl (3602879701896397 / 36028797018963968) = 3602879701896397 / 36028797018963968"
  by (simp add: fl_def expo.simps pow2_def rne_def Let_def)

lemma fl_six_fifths: "fl (6 / 5) = 5404319552844595 / 4503599627370496"
  by (simp add: fl_def expo.simps pow2_def rne_def Let_def)

section \<open>The zoom factor\<close>

lemma six_fifths_ge_one: "1 \<le> fl (6 / 5)"
  by (simp add: fl_six_fifths)

lemma tenth_facts:
  "0 \<le> fl (1 / 10)" "fl (1 / 10) \<le> 5" "1 / 10 \<le> fl (1 / 10)" "fl (1 / 10) \<le> 1"
  by (simp_all add: fl_tenth)

lemma fl_fl_tenth: "fl (fl (1 / 10)) = fl (1 / 10)"
  by (simp only: fl_tenth fl_tenth_idem)

text \<open>Each operation returns, and \<open>display_current_page\<close> leaves the zoom factor alone.\<close>

lemma redisplay_returns:
  "\<exists>v'. (if has_selection u then display_current_page E u else Some u) = Some v'
        \<and> viewer_zoom v' = viewer_zoom u"
  using display_current_page_returns [of E u] by auto

lemma zoom_in_value:
  "\<exists>v'. zoom_in E v = Some v' \<and> viewer_zoom v' = min (fl (viewer_zoom v * fl (6 / 5))) 5"
  using redisplay_returns [of "v\<lparr>viewer_zoom := min (fl (viewer_zoom v * fl (6 / 5))) 5\<rparr>" E]
  by (simp add: zoom_in_def Let_def)

lemma zoom_out_value:
  "\<exists>v'. zoom_out E v = Some v'
        \<and> viewer_zoom v' = max (fl (viewer_zoom v / fl (6 / 5))) (fl (1 / 10))"
  using redisplay_returns [of "v\<lparr>viewer_zoom := max (fl (viewer_zoom v / fl (6 / 5))) (fl (1 / 10))\<rparr>" E]
  by (simp add: zoom_out_def Let_def)

lemma zoom_reset_value: "\<exists>v'. zoom_reset E v = Some v' \<and> viewer_zoom v' = 1"
  using redisplay_returns [of "v\<lparr>viewer_zoom := 1\<rparr>" E]
  by (simp add: zoom_reset_def Let_def)

lemma zoom_in_range:
  assumes "fl (1 / 10) \<le> viewer_zoom v" "viewer_zoom v \<le> 5"
  shows "\<exists>v'. zoom_in E v = Some v' \<and> fl (1 / 10) \<le> viewer_zoom v' \<and> viewer_zoom v' \<le> 5"
proof -
  let ?z = "viewer_zoom v"
  from zoom_in_value [of E v] obtain v' where v': "zoom_in E v = Some v'"
    and z: "viewer_zoom v' = min (fl (?z * fl (6 / 5))) 5" by blast
  have z0: "0 \<le> ?z" using assms(1) tenth_facts(1) by linarith
  have "?z * 1 \<le> ?z * fl (6 / 5)"
    using six_fifths_ge_one z0 by (rule mult_left_mono)
  then have "fl (1 / 10) \<le> ?z * fl (6 / 5)" using assms(1) by simp
  then have "fl (fl (1 / 10)) \<le> fl (?z * fl (6 / 5))"
    using tenth_facts(1) by (intro fl_mono)
  then have "fl (1 / 10) \<le> fl (?z * fl (6 / 5))" by (simp only: fl_fl_tenth)
  with tenth_facts(2) have "fl (1 / 10) \<le> viewer_zoom v' \<and> viewer_zoom v' \<le> 5"
    unfolding z by simp
  with v' show ?thesis by blast
qed

lemma zoom_out_range:
  assumes "fl (1 / 10) \<le> viewer_zoom v" "viewer_zoom v \<le> 5"
  shows "\<exists>v'. zoom_out E v = Some v' \<and> fl (1 / 10) \<le> viewer_zoom v' \<and> viewer_zoom v' \<le> 5"
proof -
  let ?z = "viewer_zoom v"
  from zoom_out_value [of E v] obtain v' where v': "zoom_out E v = Some v'"
    and z: "viewer_zoom v' = max (fl (?z / fl (6 / 5))) (fl (1 / 10))" by blast
  have z0: "0 \<le> ?z" using assms(1) tenth_facts(1) by linarith
  have c: "0 < fl (6 / 5)" using six_fifths_ge_one by linarith
  have "?z * 1 \<le> ?z * fl (6 / 5)"
    using six_fifths_ge_one z0 by (rule mult_left_mono)
  then have "?z / fl (6 / 5) \<le> ?z" using c by (simp add: pos_divide_le_eq)
  then have le5: "?z / fl (6 / 5) \<le> 5" using assms(2) by linarith
  have "0 \<le> ?z / fl (6 / 5)" using z0 c by simp
  then have "fl (?z / fl (6 / 5)) \<le> fl 5" using le5 by (rule fl_mono)
  then have "fl (?z / fl (6 / 5)) \<le> 5" by (simp only: fl_5)
  with tenth_facts(2) have "fl (1 / 10) \<le> viewer_zoom v' \<and> viewer_zoom v' \<le> 5"
    unfolding z by simp
  with v' show ?thesis by blast
qed

lemma zoom_reset_range:
  "\<exists>v'. zoom_reset E v = Some v' \<and> fl (1 / 10) \<le> viewer_zoom v' \<and> viewer_zoom v' \<le> 5"
  using zoom_reset_value [of E v] tenth_facts(4) by auto

lemma apply_zoom_range:
  assumes "fl (1 / 10) \<le> viewer_zoom v" "viewer_zoom v \<le> 5"
  shows "\<exists>v'. apply_zoom E v z = Some v' \<and> fl (1 / 10) \<le> viewer_zoom v' \<and> viewer_zoom v' \<le> 5"
proof (cases z)
  case ZoomIn
  with zoom_in_range [OF assms] show ?thesis by simp
next
  case ZoomOut
  with zoom_out_range [OF assms] show ?thesis by simp
next
  case ZoomReset
  with zoom_reset_range show ?thesis by simp
qed

lemma apply_zooms_range:
  "fl (1 / 10) \<le> viewer_zoom v \<Longrightarrow> viewer_zoom v \<le> 5 \<Longrightarrow>
   \<exists>v'. apply_zooms E v zs = Some v' \<and> fl (1 / 10) \<le> viewer_zoom v' \<and> viewer_zoom v' \<le> 5"
proof (induction zs arbitrary: v)
  case Nil
  then show ?case by simp
next
  case (Cons z zs)
  from apply_zoom_range [OF Cons.prems, of E z] obtain v1
    where v1: "apply_zoom E v z = Some v1" "fl (1 / 10) \<le> viewer_zoom v1" "viewer_zoom v1 \<le> 5"
    by blast
  from Cons.IH [OF v1(2,3)] v1(1) show ?case by simp
qed

text \<open>
  C10. From the viewer of \<^verbatim>\<open>__init__\<close>, whose zoom factor is 1.0, every finite sequence of
  \<open>zoom_in\<close>, \<open>zoom_out\<close> and \<open>zoom_reset\<close> returns and leaves the zoom factor between 0.1
  and 5.0: not below the float \<^verbatim>\<open>0.1\<close> of line 258, hence not below one tenth, and not
  above 5. The products and quotients are rounded as Python rounds them.
\<close>

theorem zoom_stays_in_range:
  "\<exists>v. apply_zooms E init_viewer zs = Some v
       \<and> fl (1 / 10) \<le> viewer_zoom v \<and> 1 / 10 \<le> viewer_zoom v \<and> viewer_zoom v \<le> 5"
proof -
  have "fl (1 / 10) \<le> viewer_zoom init_viewer" "viewer_zoom init_viewer \<le> 5"
    using tenth_facts(4) by (simp_all add: init_viewer_def)
  from apply_zooms_range [OF this, of E zs] obtain v
    where v: "apply_zooms E init_viewer zs = Some v" "fl (1 / 10) \<le> viewer_zoom v"
      "viewer_zoom v \<le> 5" by blast
  from v(2) tenth_facts(3) have "1 / 10 \<le> viewer_zoom v" by linarith
  with v show ?thesis by blast
qed

section \<open>A run and the calls of stop\<close>

lemma render_thumbnail_flag:
  "render_thumbnail E (w\<lparr>is_running := b\<rparr>) d f p k = render_thumbnail E w d f p k"
  by (simp add: render_thumbnail_def cong: sum.case_cong option.case_cong)

lemma placeholder_flag:
  "create_placeholder_thumbnail (w\<lparr>is_running := b\<rparr>) = create_placeholder_thumbnail w"
  by (simp add: create_placeholder_thumbnail_def)

lemma generate_thumbnail_flag:
  "generate_thumbnail E (w\<lparr>is_running := b\<rparr>) d p k = generate_thumbnail E w d p k"
  by (simp only: generate_thumbnail_def render_thumbnail_flag placeholder_flag)

lemma progress_value_percent: "0 < tot \<Longrightarrow> progress_value i tot = Inr (percent i tot)"
  by (simp add: progress_value_def percent_def)

lemma tick_fields:
  "clock (tick sched st) = Suc (clock st)" "cache (tick sched st) = cache st"
  "events (tick sched st) = events st" "raised (tick sched st) = raised st"
  "hangs (tick sched st) = hangs st"
  by (simp_all add: tick_def deliver_def)

lemma running_Suc:
  "sched \<noteq> Some (Suc c) \<Longrightarrow> running sched (Suc c) = running sched c"
  by (auto simp: running_def split: option.split)

lemma tick_self:
  assumes "self st = w\<lparr>is_running := running sched (clock st)\<rparr>"
  shows "self (tick sched st) = w\<lparr>is_running := running sched (Suc (clock st))\<rparr>"
proof (cases "sched = Some (Suc (clock st))")
  case True
  then have "running sched (Suc (clock st)) = False" by (simp add: running_def)
  with True assms show ?thesis by (simp add: tick_def deliver_def stop_def)
next
  case False
  with assms running_Suc [OF False] show ?thesis by (simp add: tick_def deliver_def)
qed

lemma passes_stopped: "\<not> running sched c \<Longrightarrow> passes sched c n = 0"
  by (auto simp: running_def passes_def split: option.splits)

lemma passes_running: "running sched c \<Longrightarrow> passes sched c (Suc n) = Suc (passes sched (c + 4) n)"
proof (cases sched)
  case None
  then show ?thesis by (simp add: passes_def)
next
  case (Some t)
  assume "running sched c"
  with Some have "c < t" by (simp add: running_def)
  then have e: "(t - c + 3) div 4 = Suc ((t - (c + 4) + 3) div 4)" by presburger
  show ?thesis unfolding passes_def Some option.case e by simp
qed

text \<open>
  The events of a run are those of the batch for the files whose flag test succeeds:
  two events for each such file, and nothing else.
\<close>

lemma run_loop_events:
  assumes tot: "0 < tot"
  shows "self st = w\<lparr>is_running := running sched (clock st)\<rparr> \<Longrightarrow>
         events (run_loop E sched tot xs st)
           = events st @ take (2 * passes sched (clock st) (length xs)) (batch E w tot xs (cache st))"
proof (induction xs arbitrary: st)
  case Nil
  show ?case by simp
next
  case (Cons x xs)
  obtain i f where x: "x = (i, f)" by (cases x)
  show ?case
  proof (cases "running sched (clock st)")
    case False
    with Cons.prems have "\<not> is_running (self st)" by simp
    then show ?thesis by (simp add: x passes_stopped [OF False])
  next
    case True
    with Cons.prems have run: "is_running (self st)" by simp
    let ?p = "os_path_join E (folder_path w) f"
    let ?st1 = "tick sched st"
    have s1: "self ?st1 = w\<lparr>is_running := running sched (Suc (clock st))\<rparr>"
      using Cons.prems by (rule tick_self)
    show ?thesis
    proof (cases "generate_thumbnail E w (cache st) ?p (page_num w)")
      case None
      have "run_loop E sched tot (x # xs) st = ?st1\<lparr>hangs := True\<rparr>"
        using run by (simp add: x s1 generate_thumbnail_flag tick_fields None Let_def)
      moreover have "batch E w tot (x # xs) (cache st) = []"
        by (simp add: x None Let_def)
      ultimately show ?thesis by (simp add: tick_fields)
    next
      case (Some r)
      show ?thesis
      proof (cases r)
        case (Inl e)
        have "run_loop E sched tot (x # xs) st = ?st1\<lparr>raised := Some e\<rparr>"
          using run by (simp add: x s1 generate_thumbnail_flag tick_fields Some Inl Let_def)
        moreover have "batch E w tot (x # xs) (cache st) = []"
          by (simp add: x Some Inl Let_def)
        ultimately show ?thesis by (simp add: tick_fields)
      next
        case (Inr pr)
        obtain thumb d' where pr: "pr = (thumb, d')" by (cases pr)
        have g: "generate_thumbnail E w (cache st) ?p (page_num w) = Some (Inr (thumb, d'))"
          by (simp add: Some Inr pr)
        note pv = progress_value_percent [OF tot, of i]
        let ?st2 = "tick sched (?st1\<lparr>cache := d'\<rparr>)"
        let ?st3 = "tick sched (?st2\<lparr>events := events ?st2 @ [ThumbnailReady ?p thumb]\<rparr>)"
        let ?st4 = "tick sched (?st3\<lparr>events := events ?st3 @ [ProgressUpdated (percent i tot)]\<rparr>)"
        have s2: "self ?st2 = w\<lparr>is_running := running sched (Suc (Suc (clock st)))\<rparr>"
          using tick_self [where st = "?st1\<lparr>cache := d'\<rparr>" and w = w and sched = sched] s1
          by (simp add: tick_fields)
        have s3: "self ?st3 = w\<lparr>is_running := running sched (Suc (Suc (Suc (clock st))))\<rparr>"
          using tick_self [where st = "?st2\<lparr>events := events ?st2 @ [ThumbnailReady ?p thumb]\<rparr>"
              and w = w and sched = sched] s2
          by (simp add: tick_fields)
        have s4: "self ?st4 = w\<lparr>is_running := running sched (clock ?st4)\<rparr>"
          using tick_self [where st = "?st3\<lparr>events := events ?st3 @ [ProgressUpdated (percent i tot)]\<rparr>"
              and w = w and sched = sched] s3
          by (simp add: tick_fields)
        have f4: "clock ?st4 = clock st + 4" "cache ?st4 = d'"
          "events ?st4 = events st @ [ThumbnailReady ?p thumb, ProgressUpdated (percent i tot)]"
          by (simp_all add: tick_fields)
        have step: "run_loop E sched tot (x # xs) st = run_loop E sched tot xs ?st4"
          using run by (simp add: x s1 generate_thumbnail_flag tick_fields g pv Let_def)
        have b: "batch E w tot (x # xs) (cache st)
            = ThumbnailReady ?p thumb # ProgressUpdated (percent i tot) # batch E w tot xs d'"
          by (simp add: x g pv Let_def)
        from Cons.IH [OF s4]
        have "events (run_loop E sched tot xs ?st4)
            = events ?st4 @ take (2 * passes sched (clock ?st4) (length xs))
                (batch E w tot xs (cache ?st4))" .
        then show ?thesis
          unfolding step b f4 by (simp add: passes_running [OF True])
      qed
    qed
  qed
qed

lemma run_events:
  "events (run E sched (init_worker fs folder sz pg) d)
     = take (2 * passes sched 0 (length fs))
         (batch E (init_worker fs folder sz pg) (length fs) (enumerate 0 fs) d)"
proof (cases "fs = []")
  case True
  then show ?thesis by (simp add: run_def init_worker_sel deliver_def)
next
  case False
  let ?w = "init_worker fs folder sz pg"
  let ?st = "deliver sched
      \<lparr>self = ?w, cache = d, events = [], clock = 0, raised = None, hangs = False\<rparr>"
  have tot: "0 < length fs" using False by simp
  have f: "clock ?st = 0" "cache ?st = d" "events ?st = []"
    by (simp_all add: deliver_def)
  have "self ?st = ?w\<lparr>is_running := running sched 0\<rparr>"
    by (auto simp: deliver_def stop_def running_def init_worker_def split: option.split)
  then have "self ?st = ?w\<lparr>is_running := running sched (clock ?st)\<rparr>" by (simp only: f)
  from run_loop_events [OF tot this, where E = E and xs = "enumerate 0 fs"] show ?thesis
    by (simp add: run_def f init_worker_sel)
qed

text \<open>The events of a batch come in pairs, a ready event and its progress event.\<close>

lemma batch_pairs:
  assumes tot: "0 < tot"
  shows "length (ready_paths (take (2 * k) (batch E w tot xs d))) \<le> k
         \<and> length (take (2 * k) (batch E w tot xs d))
             = 2 * length (ready_paths (take (2 * k) (batch E w tot xs d)))"
proof (induction xs arbitrary: k d)
  case Nil
  show ?case by simp
next
  case (Cons x xs)
  obtain i f where x: "x = (i, f)" by (cases x)
  let ?p = "os_path_join E (folder_path w) f"
  note pv = progress_value_percent [OF tot, of i]
  show ?case
  proof (cases "generate_thumbnail E w d ?p (page_num w)")
    case None
    then show ?thesis by (simp add: x Let_def)
  next
    case (Some r)
    show ?thesis
    proof (cases r)
      case (Inl e)
      with Some show ?thesis by (simp add: x Let_def)
    next
      case (Inr pr)
      obtain thumb d' where pr: "pr = (thumb, d')" by (cases pr)
      have b: "batch E w tot (x # xs) d
          = ThumbnailReady ?p thumb # ProgressUpdated (percent i tot) # batch E w tot xs d'"
        by (simp add: x Some Inr pr pv Let_def)
      show ?thesis
      proof (cases k)
        case 0
        then show ?thesis by simp
      next
        case (Suc j)
        with Cons.IH [of j d'] show ?thesis unfolding b by simp
      qed
    qed
  qed
qed

text \<open>
  C7, as amended. When \<^verbatim>\<open>stop\<close> is called after \<open>t\<close> actions of the worker, that is after
  \<open>files_processed t\<close> files are processed, a ready event is emitted for at most the
  files whose flag test had succeeded by then, which are at most one more than the files
  processed: the file in progress is finished and announced. Each ready event comes with
  its progress event, and the events are those that the run without \<^verbatim>\<open>stop\<close> emits
  for these files, with no event after them.
\<close>

theorem cancelled_run:
  "length (ready_paths (events (run E (Some t) (init_worker fs folder sz pg) d)))
       \<le> min (length fs) ((t + 3) div 4)
   \<and> length (ready_paths (events (run E (Some t) (init_worker fs folder sz pg) d)))
       \<le> files_processed t + 1
   \<and> length (events (run E (Some t) (init_worker fs folder sz pg) d))
       = 2 * length (ready_paths (events (run E (Some t) (init_worker fs folder sz pg) d)))
   \<and> events (run E (Some t) (init_worker fs folder sz pg) d)
       = take (2 * min (length fs) ((t + 3) div 4))
           (events (run E None (init_worker fs folder sz pg) d))"
proof -
  let ?w = "init_worker fs folder sz pg"
  let ?n = "length fs"
  let ?b = "batch E ?w ?n (enumerate 0 fs) d"
  let ?k = "min ?n ((t + 3) div 4)"
  have c: "events (run E (Some t) ?w d) = take (2 * ?k) ?b"
    using run_events [of E "Some t" fs folder sz pg d] by (simp add: passes_def)
  have u: "events (run E None ?w d) = take (2 * ?n) ?b"
    using run_events [of E None fs folder sz pg d] by (simp add: passes_def)
  have 4: "events (run E (Some t) ?w d) = take (2 * ?k) (events (run E None ?w d))"
    unfolding c u by (simp add: min_def)
  have k: "?k \<le> files_processed t + 1"
  proof -
    have "(t + 3) div 4 \<le> t div 4 + 1" by presburger
    then show ?thesis by (simp add: files_processed_def)
  qed
  show ?thesis
  proof (cases "fs = []")
    case True
    then show ?thesis by (simp add: run_def init_worker_sel deliver_def)
  next
    case False
    then have tot: "0 < ?n" by simp
    from batch_pairs [OF tot, of ?k E ?w "enumerate 0 fs" d]
    have 1: "length (ready_paths (events (run E (Some t) ?w d))) \<le> ?k"
      and 3: "length (events (run E (Some t) ?w d))
          = 2 * length (ready_paths (events (run E (Some t) ?w d)))"
      unfolding c by blast+
    from 1 k have 2: "length (ready_paths (events (run E (Some t) ?w d))) \<le> files_processed t + 1"
      by linarith
    from 1 2 3 4 show ?thesis by blast
  qed
qed

section \<open>A run over the concrete folder\<close>

lemma demo_join_a [simplified]:
  "os_path_join demo_env (lit ''/lib'') (lit ''a.pdf'') = lit ''/lib/a.pdf''"
  by (simp add: demo_env_sel demo_join_def)

lemma demo_join_b [simplified]:
  "os_path_join demo_env (lit ''/lib'') (lit ''b.pdf'') = lit ''/lib/b.pdf''"
  by (simp add: demo_env_sel demo_join_def)

lemma demo_name_b [simplified]:
  "get_cache_filename demo_env (lit ''/lib/b.pdf'') 5 = lit ''b_7b0234845e40_p5.png''"
  by (simp add: get_cache_filename_def demo_env_sel demo_stat_def cache_key_def
      demo_float_str_def hash_name_def encode_def is_surrogate_def utf8_char_def
      demo_digest_def hex_nat.simps hex_digit_def safe_filename_def rstrip_def demo_stem_def
      demo_name_def demo_isalnum_def demo_isspace_def str_int_def str_nat.simps digit_char_def)

lemma demo_generate_a [simplified]:
  "generate_thumbnail demo_env demo_worker empty_disk (lit ''/lib/a.pdf'') 5
     = Some (Inr (thumbnail_a, disk_after_a))"
  by (simp add: generate_thumbnail_def demo_name_a cached_thumbnail_def path_exists_def
      render_thumbnail_def demo_open_a clamp_page_num_def getitem_def load_page_index_nonneg
      demo_env_sel(10-12) demo_rasterize_def demo_thumbnail_page demo_worker_sel save_def
      empty_disk_def thumbnail_a_def disk_after_a_def Let_def)

lemma demo_generate_b [simplified]:
  "generate_thumbnail demo_env demo_worker disk_after_a (lit ''/lib/b.pdf'') 5 = None"
proof -
  have "cached_thumbnail disk_after_a (get_cache_filename demo_env (lit ''/lib/b.pdf'') 5)
      = Inr None"
    by (simp add: demo_name_b cached_thumbnail_def path_exists_def disk_after_a_def)
  then show ?thesis
    using demo_open_b by (intro no_page_never_returns [of _ _ _ _ "Document []"]) simp_all
qed

lemma fl_half: "fl (1 / 2) = 1 / 2" and fl_50: "fl 50 = 50"
  by (simp_all add: fl_def expo.simps pow2_def rne_def Let_def)

lemma progress_value_two: "progress_value 0 2 = Inr 50" "progress_value 1 2 = Inr 100"
  by (simp_all add: progress_value_def fl_half fl_50 fl_1 fl_100 py_int_def)

lemma progress_value_demo:
  "progress_value 0 (Suc (Suc 0)) = Inr 50" "progress_value (Suc 0) (Suc (Suc 0)) = Inr 100"
  using progress_value_two by (simp_all only: numeral_2_eq_2 One_nat_def)

text \<open>
  C6. The claim: a run that is not cancelled emits a ready event for each of the \<open>N\<close>
  files and ends with the progress value 100. The program means every file to yield an
  image (\<^verbatim>\<open>except Exception\<close> on line 80 and the placeholder of line 106), but for
  \<^verbatim>\<open>/lib/b.pdf\<close>, which opens with no page, line 67 computes \<open>-1\<close> and line 69 does
  not return. The run over \<^verbatim>\<open>a.pdf\<close> and \<^verbatim>\<open>b.pdf\<close> emits the ready event of
  \<^verbatim>\<open>a.pdf\<close> and the progress value 50 and then hangs: one ready event for two files,
  and no progress value 100.
\<close>

theorem zero_page_file_stalls_run:
  "pdf_files demo_worker = [lit ''a.pdf'', lit ''b.pdf'']
   \<and> fitz_open demo_env (lit ''/lib/b.pdf'') = Inr (Document [])
   \<and> events (run demo_env None demo_worker empty_disk)
       = [ThumbnailReady (lit ''/lib/a.pdf'') thumbnail_a, ProgressUpdated 50]
   \<and> hangs (run demo_env None demo_worker empty_disk)
   \<and> length (ready_paths (events (run demo_env None demo_worker empty_disk))) = 1
   \<and> length (ready_paths (events (run demo_env None demo_worker empty_disk)))
       \<noteq> length (pdf_files demo_worker)
   \<and> last (progress_values (events (run demo_env None demo_worker empty_disk))) = 50"
proof -
  have r: "run demo_env None demo_worker empty_disk
      = \<lparr>self = demo_worker, cache = disk_after_a,
         events = [ThumbnailReady (lit ''/lib/a.pdf'') thumbnail_a, ProgressUpdated 50],
         clock = 5, raised = None, hangs = True\<rparr>"
    by (simp add: run_def demo_worker_sel deliver_def tick_def demo_join_a demo_join_b
        demo_generate_a demo_generate_b progress_value_demo Let_def)
  show ?thesis by (simp add: r demo_worker_sel demo_open_b)
qed

text \<open>
  C7 as stated fails when \<^verbatim>\<open>stop\<close> is called while a file is in progress: the flag is
  not tested again until the next file. Called after the first action of the worker,
  the flag test of \<^verbatim>\<open>a.pdf\<close>, when no file is processed yet, it leaves the run to
  generate and announce \<^verbatim>\<open>a.pdf\<close>: one ready event, for zero files processed.
\<close>

theorem stop_during_first_file:
  "files_processed 1 = 0
   \<and> events (run demo_env (Some 1) demo_worker empty_disk)
       = [ThumbnailReady (lit ''/lib/a.pdf'') thumbnail_a, ProgressUpdated 50]
   \<and> length (ready_paths (events (run demo_env (Some 1) demo_worker empty_disk))) = 1
   \<and> \<not> length (ready_paths (events (run demo_env (Some 1) demo_worker empty_disk)))
         \<le> files_processed 1"
proof -
  have r: "events (run demo_env (Some 1) demo_worker empty_disk)
      = [ThumbnailReady (lit ''/lib/a.pdf'') thumbnail_a, ProgressUpdated 50]"
    by (simp add: run_def demo_worker_sel deliver_def tick_def stop_def demo_join_a
        generate_thumbnail_flag demo_generate_a progress_value_demo Let_def)
  show ?thesis using r by (simp add: files_processed_def)
qed

end
